theory Spec2Isabelle
  imports Main "HOL-Library.Multiset"
begin

section \<open>Host-list parsing\<close>

text \<open>
  Go's \<^verbatim>\<open>strings.Split(s, sep)\<close> for a one-byte separator, which is how
  \<^verbatim>\<open>NewServerList\<close> calls it (\<^verbatim>\<open>sep = ","\<close>): the pieces of \<open>s\<close> between
  the occurrences of the separator, in order; a string without separator (also the empty
  string) is returned as the only piece. The result is never empty, so the first branch
  of the \<open>case\<close> is never taken.
\<close>

fun Split :: "string \<Rightarrow> char \<Rightarrow> string list" where
  "Split [] sep = [[]]"
| "Split (c # cs) sep =
     (if c = sep then [] # Split cs sep
      else (case Split cs sep of
              [] \<Rightarrow> [[c]]
            | piece # pieces \<Rightarrow> (c # piece) # pieces))"

text \<open>Go's \<^verbatim>\<open>strings.Join(elems, sep)\<close> with a one-byte separator.\<close>

fun Join :: "string list \<Rightarrow> char \<Rightarrow> string" where
  "Join [] sep = []"
| "Join [e] sep = e"
| "Join (e # es) sep = e @ sep # Join es sep"

text \<open>
  A Go \<^verbatim>\<open>error\<close> is its message; \<^verbatim>\<open>nil\<close> is \<open>None\<close>.
\<close>

type_synonym error = string

type_synonym ServerList = "string list"

text \<open>
  \<^verbatim>\<open>func NewServerList(arg string) (ServerList, error) {
    return strings.Split(arg, ","), nil }\<close>
\<close>

definition NewServerList :: "string \<Rightarrow> ServerList \<times> error option" where
  "NewServerList arg = (Split arg (CHR '',''), None)"

section \<open>The environment of a run\<close>

text \<open>
  Everything the program reads from outside is a field of \<open>world\<close>: the environment
  variables, the file system as seen by \<^verbatim>\<open>ioutil.ReadFile\<close>, and the library calls
  \<^verbatim>\<open>ssh.ParsePrivateKey\<close>, \<^verbatim>\<open>knownhosts.New\<close>, \<^verbatim>\<open>net.Dial("unix", _)\<close>,
  \<^verbatim>\<open>viper.ReadInConfig\<close> and \<^verbatim>\<open>fmt.Sprintf\<close> of a format without operands.
  A call that returns \<^verbatim>\<open>(value, error)\<close> is a sum: \<open>Inl\<close> the error.
\<close>

datatype Signer = Signer string

datatype Conn = Conn string

datatype HostKeyCallback = InsecureIgnoreHostKey | KnownHosts string

record world =
  Getenv :: "string \<Rightarrow> string"
  ReadFile :: "string \<Rightarrow> error + string"
  ParsePrivateKey :: "string \<Rightarrow> error + Signer"
  knownhosts_New :: "string \<Rightarrow> error + HostKeyCallback"
  Dial_unix :: "string \<Rightarrow> error + Conn"
  ReadInConfig :: "error option"
  Sprintf :: "string \<Rightarrow> string"

text \<open>
  The terminal: what has been written to standard output, and what the successive reads
  of a line from standard input will return.
\<close>

record terminal =
  stdout :: string
  stdin :: "(error + string) list"

definition Print :: "string \<Rightarrow> terminal \<Rightarrow> terminal" where
  "Print s t = t\<lparr>stdout := stdout t @ s\<rparr>"

definition Println :: "string \<Rightarrow> terminal \<Rightarrow> terminal" where
  "Println s t = t\<lparr>stdout := stdout t @ s @ [CHR 0x0A]\<rparr>"

text \<open>
  \<^verbatim>\<open>terminal.ReadPassword(fd)\<close>: reads a line with echo switched off, so the line read
  is not written to the screen. At the end of the input it returns \<^verbatim>\<open>io.EOF\<close>.
\<close>

definition ReadPassword :: "terminal \<Rightarrow> (error + string) \<times> terminal" where
  "ReadPassword t =
     (case stdin t of
        [] \<Rightarrow> (Inl ''EOF'', t)
      | r # rs \<Rightarrow> (r, t\<lparr>stdin := rs\<rparr>))"

text \<open>
  How the process ends before \<^verbatim>\<open>main\<close> returns: \<^verbatim>\<open>usage(exitstatus, msg...)\<close> and
  \<^verbatim>\<open>os.Exit(code)\<close> exit with the given status, \<^verbatim>\<open>log.Fatal(msg)\<close> exits with
  status 1.
\<close>

datatype stop = usage_exit int "string list" | os_Exit int | log_Fatal string

fun exit_status :: "stop \<Rightarrow> int" where
  "exit_status (usage_exit exitstatus msg) = exitstatus"
| "exit_status (os_Exit code) = code"
| "exit_status (log_Fatal msg) = 1"

text \<open>
  \<^verbatim>\<open>func usage(flagSet, exitstatus int, msg ...string)\<close>: prints the first message, if
  any, then the flag defaults (to standard error, which is not modelled), and exits.
\<close>

definition usage :: "int \<Rightarrow> string list \<Rightarrow> terminal \<Rightarrow> stop \<times> terminal" where
  "usage exitstatus msg t =
     (usage_exit exitstatus msg, if length msg > 0 then Println (msg ! 0) t else t)"

section \<open>Authentication methods (main.go)\<close>

text \<open>
  Go's \<^verbatim>\<open>strings.TrimSpace\<close>: leading and trailing white space removed, white space
  being the code points of \<^verbatim>\<open>unicode.IsSpace\<close>, given here by their UTF-8 encodings.
\<close>

definition unicode_spaces :: "string list" where
  "unicode_spaces =
     [[CHR 0x09], [CHR 0x0A], [CHR 0x0B], [CHR 0x0C], [CHR 0x0D], [CHR 0x20],
      [CHR 0xC2, CHR 0x85], [CHR 0xC2, CHR 0xA0],
      [CHR 0xE1, CHR 0x9A, CHR 0x80],
      [CHR 0xE2, CHR 0x80, CHR 0x80], [CHR 0xE2, CHR 0x80, CHR 0x81],
      [CHR 0xE2, CHR 0x80, CHR 0x82], [CHR 0xE2, CHR 0x80, CHR 0x83],
      [CHR 0xE2, CHR 0x80, CHR 0x84], [CHR 0xE2, CHR 0x80, CHR 0x85],
      [CHR 0xE2, CHR 0x80, CHR 0x86], [CHR 0xE2, CHR 0x80, CHR 0x87],
      [CHR 0xE2, CHR 0x80, CHR 0x88], [CHR 0xE2, CHR 0x80, CHR 0x89],
      [CHR 0xE2, CHR 0x80, CHR 0x8A],
      [CHR 0xE2, CHR 0x80, CHR 0xA8], [CHR 0xE2, CHR 0x80, CHR 0xA9],
      [CHR 0xE2, CHR 0x80, CHR 0xAF], [CHR 0xE2, CHR 0x81, CHR 0x9F],
      [CHR 0xE3, CHR 0x80, CHR 0x80]]"

text \<open>The number of bytes of the white-space code point \<open>s\<close> starts with, 0 if none.\<close>

definition leading_space :: "string \<Rightarrow> nat" where
  "leading_space s =
     (case List.find (\<lambda>sp. take (length sp) s = sp) unicode_spaces of
        None \<Rightarrow> 0
      | Some sp \<Rightarrow> length sp)"

text \<open>The number of bytes of the white-space code point \<open>s\<close> ends with, 0 if none.\<close>

definition trailing_space :: "string \<Rightarrow> nat" where
  "trailing_space s =
     (case List.find (\<lambda>sp. drop (length s - length sp) s = sp) unicode_spaces of
        None \<Rightarrow> 0
      | Some sp \<Rightarrow> length sp)"

function TrimLeft :: "string \<Rightarrow> string" where
  "TrimLeft s = (if leading_space s = 0 then s else TrimLeft (drop (leading_space s) s))"
  by pat_completeness auto

termination
proof (relation "measure length")
  show "wf (measure length)" by simp
next
  fix s :: string
  assume "leading_space s \<noteq> 0"
  then have "s \<noteq> []"
    by (auto simp: leading_space_def unicode_spaces_def)
  with \<open>leading_space s \<noteq> 0\<close> show "(drop (leading_space s) s, s) \<in> measure length"
    by simp
qed

function TrimRight :: "string \<Rightarrow> string" where
  "TrimRight s =
     (if trailing_space s = 0 then s else TrimRight (take (length s - trailing_space s) s))"
  by pat_completeness auto
termination
proof (relation "measure length")
  show "wf (measure length)" by simp
next
  fix s :: string
  assume "trailing_space s \<noteq> 0"
  then have "s \<noteq> []"
    by (auto simp: trailing_space_def unicode_spaces_def)
  with \<open>trailing_space s \<noteq> 0\<close>
  show "(take (length s - trailing_space s) s, s) \<in> measure length"
    by simp
qed

definition TrimSpace :: "string \<Rightarrow> string" where
  "TrimSpace s = TrimRight (TrimLeft s)"

text \<open>
  An \<^verbatim>\<open>ssh.AuthMethod\<close>: the agent's signers, the signer of a private key, or a
  password callback. The callback is a closure that the library calls during the
  negotiation; what it does to the terminal is written out. A \<^verbatim>\<open>nil\<close> method, and
  a \<^verbatim>\<open>nil\<close> signer, is \<open>None\<close>.
\<close>

type_synonym password_func = "terminal \<Rightarrow> (string \<times> error option) \<times> terminal"

datatype AuthMethod =
    PublicKeysCallback Conn
  | PublicKeys "Signer option"
  | PasswordCallback password_func

text \<open>
  \<^verbatim>\<open>func passwordCallback() (func() (string, error))\<close> of main.go returns this closure:
  it prints the prompt, reads the password without echo, prints a newline, and returns
  the error of the read or the password without its surrounding white space.
\<close>

definition passwordCallback :: password_func where
  "passwordCallback t =
     (let t1 = Print ''Password: '' t;
          (password, t2) = ReadPassword t1;
          t3 = Println [] t2
      in case password of
           Inl err \<Rightarrow> (([], Some err), t3)
         | Inr password \<Rightarrow> ((TrimSpace password, None), t3))"

definition sshPassword :: "AuthMethod option" where
  "sshPassword = Some (PasswordCallback passwordCallback)"

text \<open>
  \<^verbatim>\<open>func sshPrivateKey(identityFile string) (ssh.AuthMethod)\<close>: an empty argument means
  the standard \<^verbatim>\<open>$HOME/.ssh/id_rsa\<close>, whose read failure gives \<^verbatim>\<open>nil\<close>; every other
  failure is \<^verbatim>\<open>log.Fatal\<close>.
\<close>

definition sshPrivateKey :: "world \<Rightarrow> string \<Rightarrow> stop + AuthMethod option" where
  "sshPrivateKey w identityFile0 =
     (let failOnErr = (identityFile0 \<noteq> []);
          identityFile =
            (if identityFile0 = [] then Getenv w ''HOME'' @ ''/.ssh/id_rsa''
             else identityFile0)
      in case ReadFile w identityFile of
           Inl err \<Rightarrow>
             (if failOnErr then Inl (log_Fatal (''Could not read Identity File: '' @ err))
              else Inr None)
         | Inr key \<Rightarrow>
             (case ParsePrivateKey w key of
                Inl err \<Rightarrow> Inl (log_Fatal (''Could not parse private key: '' @ err))
              | Inr signer \<Rightarrow> Inr (Some (PublicKeys (Some signer)))))"

text \<open>
  \<^verbatim>\<open>func sshAgent() (ssh.AuthMethod)\<close>: \<^verbatim>\<open>nil\<close> when the socket named by
  \<^verbatim>\<open>SSH_AUTH_SOCK\<close> cannot be dialled, the agent's signers otherwise.
\<close>

definition sshAgent :: "world \<Rightarrow> AuthMethod option" where
  "sshAgent w =
     (case Dial_unix w (Getenv w ''SSH_AUTH_SOCK'') of
        Inl err \<Rightarrow> None
      | Inr authSock \<Rightarrow> Some (PublicKeysCallback authSock))"

section \<open>The entry point (main.go)\<close>

text \<open>The command line after \<^verbatim>\<open>flagSet.Parse\<close>: the flags and the positional arguments.\<close>

record flags =
  proxyHostFlag :: string
  helpFlag :: bool
  userFlag :: string
  identityFileFlag :: string
  sudoFlag :: bool
  scriptFlag :: string
  portFlag :: int
  procsFlag :: int
  versionFlag :: bool
  knownHostsFileFlag :: string
  strictHostCheckFlag :: bool
  sshAgentForwardFlag :: bool
  Args :: "string list"

record ClientConfig =
  User :: string
  Auth :: "AuthMethod option list"
  HostKeyCallback :: HostKeyCallback
  Timeout :: int

text \<open>
  The client of package \<^verbatim>\<open>gosshclient\<close>, as \<^verbatim>\<open>main\<close> configures it: one field for
  each of \<^verbatim>\<open>NewGosshClient(servers)\<close>, \<^verbatim>\<open>Port\<close>, \<^verbatim>\<open>ProxyHost\<close>, \<^verbatim>\<open>Sudo\<close>,
  \<^verbatim>\<open>Routines\<close> and \<^verbatim>\<open>ClientConfig\<close>.
\<close>

record GosshClient =
  gc_servers :: ServerList
  gc_port :: int
  gc_proxyHost :: string
  gc_sudo :: bool
  gc_routines :: int
  gc_clientConfig :: "ClientConfig option"

text \<open>
  Modelled from the spec: the response type of package \<^verbatim>\<open>gosshclient\<close>, whose source
  is missing; section 3 gives it a host identity, the captured output and a nilable
  execution error.
\<close>

record ClientResponse =
  cr_host :: string
  cr_output :: string
  cr_error :: "error option"

text \<open>
  The functions of package \<^verbatim>\<open>gosshclient\<close> that \<^verbatim>\<open>main\<close> calls and whose source is
  missing are parameters: the parser of the host list, the two ways to execute, which
  contact the hosts and may use the terminal, and the rendering of a response.
\<close>

record gosshclient =
  pkg_NewServerList :: "string \<Rightarrow> ServerList \<times> error option"
  pkg_ExecuteScript ::
    "GosshClient \<Rightarrow> string \<Rightarrow> terminal \<Rightarrow> (ClientResponse list \<times> error option) \<times> terminal"
  pkg_ExecuteCommands ::
    "GosshClient \<Rightarrow> string list \<Rightarrow> terminal \<Rightarrow> (ClientResponse list \<times> error option) \<times> terminal"
  pkg_String :: "ClientResponse \<Rightarrow> string"

definition VERSION :: string where
  "VERSION = ''0.4.1''"

text \<open>
  Lines 101 to 105 of main.go: the number handed to \<^verbatim>\<open>gclient.Routines\<close>. Go's
  \<^verbatim>\<open>int\<close> is only compared here, so the unbounded \<open>int\<close> stands for it.
\<close>

definition main_routines :: "int \<Rightarrow> ServerList \<Rightarrow> int" where
  "main_routines procs servers =
     (if procs = -1 \<or> int (length servers) < procs then int (length servers) else procs)"

text \<open>
  \<^verbatim>\<open>main\<close> up to line 125: everything before the workload is chosen. The result is the
  configured client, or how the process stopped.
\<close>

definition main_setup ::
  "gosshclient \<Rightarrow> world \<Rightarrow> flags \<Rightarrow> terminal \<Rightarrow> (stop + GosshClient) \<times> terminal"
where
  "main_setup g w f t0 =
     (let t = (case ReadInConfig w of None \<Rightarrow> t0 | Some err \<Rightarrow> Println err t0) in
      if helpFlag f then apfst Inl (usage 0 [] t)
      else if versionFlag f then (Inl (os_Exit 0), Println VERSION t)
      else if length (Args f) < 1 then
        apfst Inl (usage 2 [''At least one argument (host) is required.''] t)
      else
        case pkg_NewServerList g (Args f ! 0) of
          (servers, Some err) \<Rightarrow>
            apfst Inl (usage 3 [''Server list could not be parsed: '' @ err] t)
        | (servers, None) \<Rightarrow>
            let gclient = \<lparr>gc_servers = servers, gc_port = portFlag f,
                           gc_proxyHost = proxyHostFlag f, gc_sudo = False,
                           gc_routines = 0, gc_clientConfig = None\<rparr>;
                gclient = (if sudoFlag f then gclient\<lparr>gc_sudo := True\<rparr> else gclient);
                gclient = gclient\<lparr>gc_routines := main_routines (procsFlag f) servers\<rparr>
            in
              case (if strictHostCheckFlag f then Inr InsecureIgnoreHostKey
                    else knownhosts_New w (Sprintf w (knownHostsFileFlag f))) of
                Inl err \<Rightarrow>
                  (Inl (log_Fatal (''Could not parse known_hosts file: '' @ err)), t)
              | Inr hostKeyCallback \<Rightarrow>
                  (case sshPrivateKey w (identityFileFlag f) of
                     Inl fatal \<Rightarrow> (Inl fatal, t)
                   | Inr key \<Rightarrow>
                       let sshAuthMethods = [sshAgent w, key, sshPassword];
                           sshClientConfig =
                             \<lparr>User = userFlag f, Auth = sshAuthMethods,
                              HostKeyCallback = hostKeyCallback,
                              Timeout = 20 * 1000000000\<rparr>
                       in (Inr (gclient\<lparr>gc_clientConfig := Some sshClientConfig\<rparr>), t)))"

text \<open>
  How a run of \<^verbatim>\<open>main\<close> ends: stopped before any host was contacted, or after the
  execution, which is where the hosts are contacted, with its responses and error.
\<close>

datatype outcome = Stopped stop | Executed "ClientResponse list" "error option"

fun exit_code :: "outcome \<Rightarrow> int" where
  "exit_code (Stopped st) = exit_status st"
| "exit_code (Executed results None) = 0"
| "exit_code (Executed results (Some err)) = 1"

fun hosts_contacted :: "outcome \<Rightarrow> bool" where
  "hosts_contacted (Stopped st) = False"
| "hosts_contacted (Executed results err) = True"

fun print_results :: "gosshclient \<Rightarrow> ClientResponse list \<Rightarrow> terminal \<Rightarrow> terminal" where
  "print_results g [] t = t"
| "print_results g (res # results) t = print_results g results (Println (pkg_String g res) t)"

text \<open>\<^verbatim>\<open>func main()\<close>: the setup, then lines 127 to 141.\<close>

definition main :: "gosshclient \<Rightarrow> world \<Rightarrow> flags \<Rightarrow> terminal \<Rightarrow> outcome \<times> terminal" where
  "main g w f t0 =
     (case main_setup g w f t0 of
        (Inl st, t) \<Rightarrow> (Stopped st, t)
      | (Inr gclient, t) \<Rightarrow>
          if scriptFlag f \<noteq> [] then
            (case pkg_ExecuteScript g gclient (scriptFlag f) t of
               ((results, Some err), t') \<Rightarrow> (Executed results (Some err), t')
             | ((results, None), t') \<Rightarrow> (Executed results None, print_results g results t'))
          else if length (drop 1 (Args f)) > 0 then
            (case pkg_ExecuteCommands g gclient (drop 1 (Args f)) t of
               ((results, Some err), t') \<Rightarrow> (Executed results (Some err), t')
             | ((results, None), t') \<Rightarrow> (Executed results None, print_results g results t'))
          else apfst Stopped (usage 3 [''No script or commands provided.''] t))"

section \<open>The standalone program (src, unnamed part 000)\<close>

text \<open>
  The second source file is a program of its own, with its own \<^verbatim>\<open>main\<close>, \<^verbatim>\<open>load\<close>
  and \<^verbatim>\<open>execute\<close>. Where one of its names is taken by main.go above, the name gets the
  prefix \<open>p0\<close>.
\<close>

record load_flags =
  flagHelp :: bool
  flagUser :: string
  flagIdentityFile :: string
  flagSudo :: bool
  flagVerbose :: bool
  flagScript :: string
  flagPort :: int
  flagProcs :: int
  flagVersion :: bool
  flagKnownHostsFile :: string
  flagStrictHostCheck :: bool
  flag_Args :: "string list"

text \<open>A buffered Go channel: \<^verbatim>\<open>make(chan T, n)\<close> has capacity \<open>n\<close> and is empty and open.\<close>

record 'a chan =
  capacity :: nat
  buffer :: "'a list"
  closed :: bool

definition make_chan :: "nat \<Rightarrow> 'a chan" where
  "make_chan n = \<lparr>capacity = n, buffer = [], closed = False\<rparr>"

text \<open>\<^verbatim>\<open>ExecutorResponse\<close>, of which \<^verbatim>\<open>execute\<close> reads the two fields.\<close>

record ExecutorResponse =
  Host :: string
  ResponseData :: string

record ExecutorCom =
  JobChannel :: "string chan"
  ResponseChannel :: "ExecutorResponse chan"

text \<open>
  The two executors. \<^verbatim>\<open>NewScriptExecutor\<close>, whose source is missing and which can fail,
  is a parameter of \<^verbatim>\<open>load\<close>.
\<close>

datatype Executor = ScriptExecutor string | CommandExecutor "string list"

definition NewCommandExecutor :: "string list \<Rightarrow> Executor" where
  "NewCommandExecutor commands = CommandExecutor commands"

record ExecutionConfig =
  Handler :: Executor
  NumProcs :: int
  ServerList :: ServerList
  SSHPort :: int
  SSHClientConfig :: ClientConfig
  Sudo :: bool
  Verbose :: bool
  ComChannel :: ExecutorCom

definition p0_VERSION :: string where
  "p0_VERSION = ''0.0.1''"

text \<open>\<^verbatim>\<open>func passwordPrompt() (string, error)\<close>\<close>

definition passwordPrompt :: "terminal \<Rightarrow> (string \<times> error option) \<times> terminal" where
  "passwordPrompt t =
     (let t1 = Print ''Password: '' t;
          (password, t2) = ReadPassword t1;
          t3 = Println [] t2
      in case password of
           Inl err \<Rightarrow> (([], Some err), t3)
         | Inr password \<Rightarrow> ((TrimSpace password, None), t3))"

text \<open>\<^verbatim>\<open>func passwordCallback(password string) (func() (string, error))\<close>\<close>

definition p0_passwordCallback :: "string \<Rightarrow> password_func" where
  "p0_passwordCallback password = (\<lambda>t. ((password, None), t))"

text \<open>\<^verbatim>\<open>func getPrivateKey(identityFile string, failOnErr bool) (ssh.Signer)\<close>\<close>

definition getPrivateKey :: "world \<Rightarrow> string \<Rightarrow> bool \<Rightarrow> stop + Signer option" where
  "getPrivateKey w identityFile failOnErr =
     (case ReadFile w identityFile of
        Inl err \<Rightarrow>
          (if failOnErr then Inl (log_Fatal (''Could not read Identity File: '' @ err))
           else Inr None)
      | Inr key \<Rightarrow>
          (case ParsePrivateKey w key of
             Inl err \<Rightarrow> Inl (log_Fatal (''Could not parse private key: '' @ err))
           | Inr signer \<Rightarrow> Inr (Some signer)))"

text \<open>Lines 186 to 206 of \<^verbatim>\<open>load\<close>: the authentication methods.\<close>

definition load_auth ::
  "world \<Rightarrow> load_flags \<Rightarrow> terminal \<Rightarrow> (stop + AuthMethod option list) \<times> terminal"
where
  "load_auth w f t =
     (if flagIdentityFile f \<noteq> [] then
        (case getPrivateKey w (flagIdentityFile f) True of
           Inl fatal \<Rightarrow> (Inl fatal, t)
         | Inr signer \<Rightarrow> (Inr [Some (PublicKeys signer)], t))
      else
        (case getPrivateKey w (Getenv w ''HOME'' @ ''/.ssh/id_rsa'') False of
           Inl fatal \<Rightarrow> (Inl fatal, t)
         | Inr (Some signer) \<Rightarrow> (Inr [Some (PublicKeys (Some signer))], t)
         | Inr None \<Rightarrow>
             (case passwordPrompt t of
                ((password, Some err), t') \<Rightarrow>
                  (Inl (log_Fatal (''Could not read password: '' @ err)), t')
              | ((password, None), t') \<Rightarrow>
                  (Inr [Some (PasswordCallback (p0_passwordCallback password))], t'))))"

text \<open>Lines 170 to 218 of \<^verbatim>\<open>load\<close>: the host keys, the client configuration, \<^verbatim>\<open>Config\<close>.\<close>

definition load_ssh ::
  "world \<Rightarrow> load_flags \<Rightarrow> terminal \<Rightarrow> ServerList \<Rightarrow> ExecutorCom \<Rightarrow> Executor
     \<Rightarrow> (stop + ExecutionConfig) \<times> terminal"
where
  "load_ssh w f t servers executorComChannel executor =
     (case (if flagStrictHostCheck f then Inr InsecureIgnoreHostKey
            else knownhosts_New w (Sprintf w (flagKnownHostsFile f))) of
        Inl err \<Rightarrow> (Inl (log_Fatal (''Could not parse known_hosts file: '' @ err)), t)
      | Inr hostKeyCallback \<Rightarrow>
          (case load_auth w f t of
             (Inl fatal, t') \<Rightarrow> (Inl fatal, t')
           | (Inr auth, t') \<Rightarrow>
               (Inr \<lparr>Handler = executor, NumProcs = flagProcs f, ServerList = servers,
                     SSHPort = flagPort f,
                     SSHClientConfig =
                       \<lparr>User = flagUser f, Auth = auth,
                        HostKeyCallback = hostKeyCallback,
                        Timeout = 20 * 1000000000\<rparr>,
                     Sudo = flagSudo f, Verbose = flagVerbose f,
                     ComChannel = executorComChannel\<rparr>, t')))"

text \<open>\<^verbatim>\<open>func load()\<close>: the result is the global \<^verbatim>\<open>Config\<close>, or how the process stopped.\<close>

definition load ::
  "(string \<Rightarrow> error + Executor) \<Rightarrow> world \<Rightarrow> load_flags \<Rightarrow> terminal
     \<Rightarrow> (stop + ExecutionConfig) \<times> terminal"
where
  "load NewScriptExecutor w f t =
     (if flagHelp f then apfst Inl (usage 0 [] t)
      else if flagVersion f then (Inl (os_Exit 0), Println p0_VERSION t)
      else if flagUser f = [] then apfst Inl (usage 1 [''Username required.''] t)
      else if length (flag_Args f) < 1 then
        apfst Inl (usage 2 [''At least one argument (host) is required.''] t)
      else
        case NewServerList (flag_Args f ! 0) of
          (servers, Some err) \<Rightarrow>
            apfst Inl (usage 3 [''Server list could not be parsed.''] t)
        | (servers, None) \<Rightarrow>
            let executorComChannel =
                  \<lparr>JobChannel = make_chan 100, ResponseChannel = make_chan 100\<rparr>
            in
              if flagScript f \<noteq> [] then
                (case NewScriptExecutor (flagScript f) of
                   Inl err \<Rightarrow>
                     (Inl (log_Fatal (''Could not create ScriptExecutor: '' @ err)), t)
                 | Inr executor \<Rightarrow> load_ssh w f t servers executorComChannel executor)
              else if length (drop 1 (flag_Args f)) > 0 then
                load_ssh w f t servers executorComChannel
                  (NewCommandExecutor (drop 1 (flag_Args f)))
              else apfst Inl (usage 3 [''No script or commands provided.''] t))"

text \<open>
  Lines 67 to 70 of \<^verbatim>\<open>execute\<close>: the number of goroutines that are started.
\<close>

definition execute_threads :: "ExecutionConfig \<Rightarrow> int" where
  "execute_threads Config =
     (if int (length (ServerList Config)) < NumProcs Config
      then int (length (ServerList Config)) else NumProcs Config)"

section \<open>Concrete runs\<close>

text \<open>
  A machine whose default key file exists and parses, whose known-hosts file loads and
  where no agent listens; variations of it are used below.
\<close>

definition example_world :: world where
  "example_world =
     \<lparr>Getenv = (\<lambda>name. if name = ''HOME'' then ''/home/op'' else []),
      ReadFile = (\<lambda>path. if path = ''/home/op/.ssh/id_rsa'' then Inr ''KEY''
                         else Inl ''no such file''),
      ParsePrivateKey = (\<lambda>key. Inr (Signer key)),
      knownhosts_New = (\<lambda>path. Inr (KnownHosts path)),
      Dial_unix = (\<lambda>path. Inl ''connection refused''),
      ReadInConfig = None,
      Sprintf = (\<lambda>s. s)\<rparr>"

definition example_flags :: flags where
  "example_flags =
     \<lparr>proxyHostFlag = [], helpFlag = False, userFlag = ''op'', identityFileFlag = [],
      sudoFlag = False, scriptFlag = [], portFlag = 22, procsFlag = 4, versionFlag = False,
      knownHostsFileFlag = ''/home/op/.ssh/known_hosts'', strictHostCheckFlag = False,
      sshAgentForwardFlag = False, Args = [''h1,h2'', ''uptime'']\<rparr>"

definition example_terminal :: terminal where
  "example_terminal = \<lparr>stdout = [], stdin = [Inr ''secret  '']\<rparr>"

definition example_pkg :: gosshclient where
  "example_pkg =
     \<lparr>pkg_NewServerList = NewServerList,
      pkg_ExecuteScript = (\<lambda>gclient script t. (([], None), t)),
      pkg_ExecuteCommands =
        (\<lambda>gclient commands t.
           ((map (\<lambda>h. \<lparr>cr_host = h, cr_output = ''up'', cr_error = None\<rparr>)
               (gc_servers gclient), None), t)),
      pkg_String = (\<lambda>res. cr_host res @ '': '' @ cr_output res)\<rparr>"

definition example_load_flags :: load_flags where
  "example_load_flags =
     \<lparr>flagHelp = False, flagUser = ''op'', flagIdentityFile = [], flagSudo = False,
      flagVerbose = False, flagScript = [], flagPort = 22, flagProcs = 4,
      flagVersion = False, flagKnownHostsFile = ''/home/op/.ssh/known_hosts'',
      flagStrictHostCheck = False, flag_Args = [''h1,h2'', ''uptime'']\<rparr>"

definition example_NewScriptExecutor :: "string \<Rightarrow> error + Executor" where
  "example_NewScriptExecutor path = Inr (ScriptExecutor ''#!/bin/sh'')"

text \<open>The status with which \<^verbatim>\<open>load\<close> ends the process; \<open>None\<close> when it returns.\<close>

definition load_exit ::
  "(string \<Rightarrow> error + Executor) \<Rightarrow> world \<Rightarrow> load_flags \<Rightarrow> terminal \<Rightarrow> int option"
where
  "load_exit NewScriptExecutor w f t =
     (case fst (load NewScriptExecutor w f t) of
        Inl st \<Rightarrow> Some (exit_status st)
      | Inr Config \<Rightarrow> None)"

text \<open>The exit status of a run of \<^verbatim>\<open>main\<close>.\<close>

definition main_exit :: "gosshclient \<Rightarrow> world \<Rightarrow> flags \<Rightarrow> terminal \<Rightarrow> int" where
  "main_exit g w f t = exit_code (fst (main g w f t))"

text \<open>The example machine with a default key file that does not parse.\<close>

definition unparsable_key_world :: world where
  "unparsable_key_world =
     example_world\<lparr>ParsePrivateKey := (\<lambda>key. Inl ''ssh: no key found'')\<rparr>"

text \<open>The example machine with a known-hosts file that cannot be loaded.\<close>

definition no_known_hosts_world :: world where
  "no_known_hosts_world =
     example_world\<lparr>knownhosts_New := (\<lambda>path. Inl ''open: no such file or directory'')\<rparr>"

text \<open>The client that \<^verbatim>\<open>main\<close> configures on the example machine for the hosts \<open>h1,h2\<close>.\<close>

definition example_gclient :: GosshClient where
  "example_gclient =
     \<lparr>gc_servers = [''h1'', ''h2''], gc_port = 22, gc_proxyHost = [], gc_sudo = False,
      gc_routines = 2,
      gc_clientConfig =
        Some \<lparr>User = ''op'',
              Auth = [None, Some (PublicKeys (Some (Signer ''KEY''))),
                      Some (PasswordCallback passwordCallback)],
              HostKeyCallback = KnownHosts ''/home/op/.ssh/known_hosts'',
              Timeout = 20000000000\<rparr>\<rparr>"

text \<open>
  The values of the flags when the command line sets none: the defaults given to
  \<^verbatim>\<open>flagSet\<close> in lines 56 to 68 of main.go, and to \<^verbatim>\<open>flag\<close> in lines 122 to 132 of
  the standalone program. \<open>numCPU\<close> is \<^verbatim>\<open>runtime.NumCPU()\<close>.
\<close>

definition default_flags :: "world \<Rightarrow> int \<Rightarrow> string list \<Rightarrow> flags" where
  "default_flags w numCPU positional =
     \<lparr>proxyHostFlag = [], helpFlag = False, userFlag = Getenv w ''USER'',
      identityFileFlag = [], sudoFlag = False, scriptFlag = [], portFlag = 22,
      procsFlag = numCPU, versionFlag = False,
      knownHostsFileFlag = Getenv w ''HOME'' @ ''/.ssh/known_hosts'',
      strictHostCheckFlag = False, sshAgentForwardFlag = False, Args = positional\<rparr>"

definition default_load_flags :: "world \<Rightarrow> int \<Rightarrow> string list \<Rightarrow> load_flags" where
  "default_load_flags w numCPU positional =
     \<lparr>flagHelp = False, flagUser = Getenv w ''USER'', flagIdentityFile = [],
      flagSudo = False, flagVerbose = False, flagScript = [], flagPort = 22,
      flagProcs = numCPU, flagVersion = False,
      flagKnownHostsFile = Getenv w ''HOME'' @ ''/.ssh/known_hosts'',
      flagStrictHostCheck = False, flag_Args = positional\<rparr>"

section \<open>The negotiation of a session\<close>

text \<open>
  Modelled from the spec: the negotiation of one session attempt, which is done by the
  connector of package \<^verbatim>\<open>gosshclient\<close> and the ssh library under it, neither of them
  in src. Section 4.2 of the spec: the method list is supplied in order, and "the
  underlying negotiation protocol tries them in order and stops at the first success".
  What a method presents to the remote side is an \<open>offer\<close>; the remote side is the
  predicate of the offers it accepts. A password callback is called when its turn comes;
  when it returns an error, the method has not succeeded.
\<close>

datatype offer = AgentSigners Conn | KeySigner "Signer option" | Password string

fun negotiate :: "(offer \<Rightarrow> bool) \<Rightarrow> AuthMethod list \<Rightarrow> terminal \<Rightarrow> bool \<times> terminal" where
  "negotiate accepts [] t = (False, t)"
| "negotiate accepts (PublicKeysCallback agent # methods) t =
     (if accepts (AgentSigners agent) then (True, t) else negotiate accepts methods t)"
| "negotiate accepts (PublicKeys signer # methods) t =
     (if accepts (KeySigner signer) then (True, t) else negotiate accepts methods t)"
| "negotiate accepts (PasswordCallback prompt # methods) t =
     (case prompt t of
        ((password, Some err), t') \<Rightarrow> negotiate accepts methods t'
      | ((password, None), t') \<Rightarrow>
          if accepts (Password password) then (True, t') else negotiate accepts methods t')"

text \<open>The methods of a list that are not \<^verbatim>\<open>nil\<close>, in order.\<close>

fun offered :: "AuthMethod option list \<Rightarrow> AuthMethod list" where
  "offered [] = []"
| "offered (None # methods) = offered methods"
| "offered (Some method # methods) = method # offered methods"

fun is_password :: "AuthMethod \<Rightarrow> bool" where
  "is_password (PasswordCallback prompt) = True"
| "is_password (PublicKeysCallback agent) = False"
| "is_password (PublicKeys signer) = False"

text \<open>Whether the remote side accepts what a key method offers.\<close>

fun key_accepted :: "(offer \<Rightarrow> bool) \<Rightarrow> AuthMethod \<Rightarrow> bool" where
  "key_accepted accepts (PublicKeysCallback agent) = accepts (AgentSigners agent)"
| "key_accepted accepts (PublicKeys signer) = accepts (KeySigner signer)"
| "key_accepted accepts (PasswordCallback prompt) = False"

text \<open>The example machine without a default key file.\<close>

definition no_key_world :: world where
  "no_key_world = example_world\<lparr>ReadFile := (\<lambda>path. Inl ''no such file'')\<rparr>"

section \<open>The worker pool (\<^verbatim>\<open>execute\<close> of the standalone program)\<close>

text \<open>
  \<^verbatim>\<open>execute\<close> starts the workers (lines 74 to 77), starts the producer, which sends
  every host of \<^verbatim>\<open>Config.ServerList\<close> to the job channel and closes it (lines 79 to
  84), and then collects: its loop \<^verbatim>\<open>for i := 0; i < len(Config.ServerList); i++\<close>
  receives from the response channel once in every round (lines 88 to 93). After the
  loop it prints the results and returns (lines 95 to 99); it does not wait for the
  workers, the call of \<^verbatim>\<open>wg.Wait\<close> being commented out (line 94). These goroutines run
  interleaved; a state of the pool holds the two channels, the hosts the producer has
  not sent yet, the state of every worker, the responses collected so far, the loop
  variable \<^verbatim>\<open>i\<close> of the collector, and whether \<^verbatim>\<open>execute\<close> has left the loop.
\<close>

text \<open>
  Modelled from the spec: the worker, \<^verbatim>\<open>Handler.Run\<close>, whose source is missing. Section
  4.6: each worker loops: dequeue a host (exit the loop when the queue is closed and
  empty), connect, execute, build the response, push it to the response queue,
  continue. A worker is about to dequeue, or holds the host it has dequeued, or has
  returned.
\<close>

datatype worker = Dequeuing | Executing string | Returned

record pool =
  jobs :: "string chan"
  responses :: "ExecutorResponse chan"
  unsent :: "string list"
  workers :: "worker list"
  results :: "ExecutorResponse list"
  loop_i :: nat
  finished :: bool

text \<open>
  The steps of the goroutines. \<open>Send\<close> and \<open>Close\<close> are the producer's (lines 80 to
  83). \<open>Collect\<close> is one round of the collector's loop (lines 88 to 92): the test
  \<^verbatim>\<open>i < len(Config.ServerList)\<close>, the receive, the append and \<^verbatim>\<open>i++\<close>. \<open>Finish\<close> is
  the exit from the loop, when the test fails. \<open>Dequeue k\<close>, \<open>Return k\<close> and
  \<open>Respond k data\<close> are the steps of worker \<open>k\<close>, modelled from the spec as said above;
  the response it pushes names the host it holds, and \<open>data\<close> is the output it has
  captured. A send needs room in the buffer and a receive needs an element in it;
  otherwise the goroutine blocks, which is no step.
\<close>

datatype action =
    Send
  | Close
  | Dequeue nat
  | Return nat
  | Respond nat string
  | Collect
  | Finish

fun move :: "ExecutionConfig \<Rightarrow> action \<Rightarrow> pool \<Rightarrow> pool option" where
  "move Config Send s =
     (case unsent s of
        [] \<Rightarrow> None
      | host # hosts \<Rightarrow>
          if length (buffer (jobs s)) < capacity (jobs s)
          then Some (s\<lparr>jobs := (jobs s)\<lparr>buffer := buffer (jobs s) @ [host]\<rparr>, unsent := hosts\<rparr>)
          else None)"
| "move Config Close s =
     (if unsent s = [] \<and> \<not> closed (jobs s)
      then Some (s\<lparr>jobs := (jobs s)\<lparr>closed := True\<rparr>\<rparr>)
      else None)"
| "move Config (Dequeue k) s =
     (if k < length (workers s) \<and> workers s ! k = Dequeuing
      then (case buffer (jobs s) of
              [] \<Rightarrow> None
            | host # hosts \<Rightarrow>
                Some (s\<lparr>jobs := (jobs s)\<lparr>buffer := hosts\<rparr>,
                        workers := (workers s)[k := Executing host]\<rparr>))
      else None)"
| "move Config (Return k) s =
     (if k < length (workers s) \<and> workers s ! k = Dequeuing
         \<and> buffer (jobs s) = [] \<and> closed (jobs s)
      then Some (s\<lparr>workers := (workers s)[k := Returned]\<rparr>)
      else None)"
| "move Config (Respond k data) s =
     (if k < length (workers s)
      then (case workers s ! k of
              Executing host \<Rightarrow>
                if length (buffer (responses s)) < capacity (responses s)
                then Some (s\<lparr>responses := (responses s)
                               \<lparr>buffer := buffer (responses s)
                                  @ [\<lparr>Host = host, ResponseData = data\<rparr>]\<rparr>,
                             workers := (workers s)[k := Dequeuing]\<rparr>)
                else None
            | Dequeuing \<Rightarrow> None
            | Returned \<Rightarrow> None)
      else None)"
| "move Config Collect s =
     (if loop_i s < length (ServerList Config)
      then (case buffer (responses s) of
              [] \<Rightarrow> None
            | result # rest \<Rightarrow>
                Some (s\<lparr>responses := (responses s)\<lparr>buffer := rest\<rparr>,
                        results := results s @ [result],
                        loop_i := Suc (loop_i s)\<rparr>))
      else None)"
| "move Config Finish s =
     (if loop_i s < length (ServerList Config)
      then None
      else Some (s\<lparr>finished := True\<rparr>))"

text \<open>
  When \<^verbatim>\<open>execute\<close> has left the loop it prints and returns, \<^verbatim>\<open>main\<close> returns (line 61)
  and the program ends with all its goroutines: no step is taken any more.
\<close>

definition step :: "ExecutionConfig \<Rightarrow> action \<Rightarrow> pool \<Rightarrow> pool option" where
  "step Config a s = (if finished s then None else move Config a s)"

text \<open>
  The pool when the collector starts. \<^verbatim>\<open>wg.Add(threads)\<close> panics on a negative
  number, which is \<open>None\<close>.
\<close>

definition start :: "ExecutionConfig \<Rightarrow> pool option" where
  "start Config =
     (let threads = execute_threads Config in
      if threads < 0 then None
      else Some \<lparr>jobs = JobChannel (ComChannel Config),
                 responses = ResponseChannel (ComChannel Config),
                 unsent = ServerList Config,
                 workers = replicate (nat threads) Dequeuing,
                 results = [], loop_i = 0, finished = False\<rparr>)"

fun run :: "ExecutionConfig \<Rightarrow> action list \<Rightarrow> pool \<Rightarrow> pool option" where
  "run Config [] s = Some s"
| "run Config (a # schedule) s =
     (case step Config a s of
        None \<Rightarrow> None
      | Some s' \<Rightarrow> run Config schedule s')"

text \<open>
  The pool after the goroutines of \<^verbatim>\<open>execute\<close> have taken the steps of a schedule;
  \<open>None\<close> when they cannot.
\<close>

definition execute :: "ExecutionConfig \<Rightarrow> action list \<Rightarrow> pool option" where
  "execute Config schedule =
     (case start Config of
        None \<Rightarrow> None
      | Some s \<Rightarrow> run Config schedule s)"

text \<open>The hosts that the workers hold.\<close>

fun holding :: "worker list \<Rightarrow> string list" where
  "holding [] = []"
| "holding (Executing host # ws) = host # holding ws"
| "holding (Dequeuing # ws) = holding ws"
| "holding (Returned # ws) = holding ws"

text \<open>
  Where the hosts are: every host of the list is not sent yet, or in the job channel,
  or held by a worker, or its response is in the response channel, or its response
  is collected.
\<close>

definition hosts_of :: "pool \<Rightarrow> string multiset" where
  "hosts_of s =
     mset (unsent s) + mset (buffer (jobs s)) + mset (holding (workers s))
     + mset (map Host (buffer (responses s))) + mset (map Host (results s))"

definition pool_inv :: "ExecutionConfig \<Rightarrow> pool \<Rightarrow> bool" where
  "pool_inv Config s \<longleftrightarrow>
     hosts_of s = mset (ServerList Config)
     \<and> (closed (jobs s) \<longrightarrow> unsent s = [])
     \<and> (Returned \<in> set (workers s) \<longrightarrow> closed (jobs s) \<and> buffer (jobs s) = [])
     \<and> 0 < capacity (jobs s) \<and> 0 < capacity (responses s)
     \<and> length (buffer (jobs s)) \<le> capacity (jobs s)
     \<and> length (buffer (responses s)) \<le> capacity (responses s)
     \<and> int (length (workers s)) = execute_threads Config
     \<and> loop_i s = length (results s)
     \<and> (finished s \<longrightarrow> length (ServerList Config) \<le> loop_i s)"

text \<open>The number of steps that the goroutines can still take.\<close>

fun worker_steps :: "worker \<Rightarrow> nat" where
  "worker_steps Dequeuing = 1"
| "worker_steps (Executing host) = 3"
| "worker_steps Returned = 0"

definition steps_left :: "pool \<Rightarrow> nat" where
  "steps_left s =
     4 * length (unsent s) + (if closed (jobs s) then 0 else 1)
     + 3 * length (buffer (jobs s)) + sum_list (map worker_steps (workers s))
     + length (buffer (responses s)) + (if finished s then 0 else 1)"

text \<open>The configuration that \<^verbatim>\<open>load\<close> returns for the example command line.\<close>

definition example_Config :: ExecutionConfig where
  "example_Config =
     \<lparr>Handler = CommandExecutor [''uptime''], NumProcs = 4,
      ServerList = [''h1'', ''h2''], SSHPort = 22,
      SSHClientConfig =
        \<lparr>User = ''op'', Auth = [Some (PublicKeys (Some (Signer ''KEY'')))],
         HostKeyCallback = KnownHosts ''/home/op/.ssh/known_hosts'',
         Timeout = 20000000000\<rparr>,
      Sudo = False, Verbose = False,
      ComChannel = \<lparr>JobChannel = make_chan 100, ResponseChannel = make_chan 100\<rparr>\<rparr>"

text \<open>
  A schedule of the example in which the collector leaves its loop while the producer
  has not closed the job channel and no worker has returned.
\<close>

definition example_schedule :: "action list" where
  "example_schedule =
     [Send, Dequeue 1, Send, Dequeue 0, Respond 0 ''up 3 days'', Collect,
      Respond 1 ''up 5 days'', Collect, Finish]"

text \<open>
  A pool of the example in which the collector has received twice and a third
  response is in the response channel.
\<close>

definition example_pool :: pool where
  "example_pool =
     \<lparr>jobs = \<lparr>capacity = 100, buffer = [], closed = True\<rparr>,
      responses = \<lparr>capacity = 100,
                   buffer = [\<lparr>Host = ''h3'', ResponseData = ''up 1 day''\<rparr>],
                   closed = False\<rparr>,
      unsent = [], workers = [Returned, Returned],
      results = [\<lparr>Host = ''h2'', ResponseData = ''up 3 days''\<rparr>,
                 \<lparr>Host = ''h1'', ResponseData = ''up 5 days''\<rparr>],
      loop_i = 2, finished = False\<rparr>"




section \<open>Properties of the parser\<close>

lemma Split_not_Nil: "Split s sep \<noteq> []"
  by (induction s) (auto split: list.splits)

lemma Join_Cons: "es \<noteq> [] \<Longrightarrow> Join (e # es) sep = e @ sep # Join es sep"
  by (cases es) simp_all

lemma Join_Split: "Join (Split s sep) sep = s"
proof (induction s)
  case Nil
  show ?case by simp
next
  case (Cons c cs)
  show ?case
  proof (cases "c = sep")
    case True
    with Cons show ?thesis by (simp add: Join_Cons Split_not_Nil)
  next
    case False
    obtain piece pieces where sp: "Split cs sep = piece # pieces"
      using Split_not_Nil [of cs sep] by (cases "Split cs sep") auto
    have "Join ((c # piece) # pieces) sep = c # Join (piece # pieces) sep"
      by (cases pieces) simp_all
    with Cons False sp show ?thesis by simp
  qed
qed

lemma Split_no_sep: "e \<in> set (Split s sep) \<Longrightarrow> sep \<notin> set e"
  by (induction s arbitrary: e) (auto split: if_splits list.splits)

lemma length_Split: "length (Split s sep) = Suc (count_list s sep)"
  by (induction s) (auto split: list.splits simp: Split_not_Nil)

section \<open>Properties of the entry points\<close>

lemma main_setup_usage_3:
  "fst (main_setup g w f t) = Inl (usage_exit 3 msg) \<Longrightarrow>
   \<exists>servers err. pkg_NewServerList g (Args f ! 0) = (servers, Some err)"
  by (auto simp: main_setup_def usage_def sshPrivateKey_def Let_def
           split: if_splits prod.splits option.splits sum.splits)

lemma main_setup_Inr:
  assumes "fst (main_setup g w f t) = Inr gclient"
  shows "\<not> helpFlag f" and "\<not> versionFlag f" and "Args f \<noteq> []"
    and "pkg_NewServerList g (Args f ! 0) = (gc_servers gclient, None)"
    and "gc_routines gclient = main_routines (procsFlag f) (gc_servers gclient)"
  using assms
  by (auto simp: main_setup_def usage_def Let_def
           split: if_splits prod.splits option.splits sum.splits)

lemma load_usage_3:
  "fst (load nse w f t) = Inl (usage_exit 3 msg) \<Longrightarrow>
   msg = [''No script or commands provided.'']"
  by (auto simp: load_def load_ssh_def load_auth_def getPrivateKey_def usage_def
                 NewServerList_def Let_def
           split: if_splits prod.splits option.splits sum.splits)

lemma load_Inr:
  assumes "fst (load nse w f t) = Inr Config"
  shows "ServerList Config = fst (NewServerList (flag_Args f ! 0))"
    and "ComChannel Config = \<lparr>JobChannel = make_chan 100, ResponseChannel = make_chan 100\<rparr>"
    and "NumProcs Config = flagProcs f"
  using assms
  by (auto simp: load_def load_ssh_def usage_def NewServerList_def Let_def
           split: if_splits prod.splits option.splits sum.splits)

lemma count_list_replicate: "count_list (replicate n x) x = n"
  by (induction n) simp_all

lemma execute_threads_min:
  "execute_threads Config = min (NumProcs Config) (int (length (ServerList Config)))"
  by (simp add: execute_threads_def min_def)

text \<open>
  C1, as amended. The parser splits the argument at its commas and does nothing else: it
  never returns an error, joining the entries with commas gives the argument back (so
  the entries are in order and no character is trimmed), no entry holds a comma, and
  there is one entry more than there are commas. So \<open>a,b,c\<close> gives the three hosts, the
  blanks of \<open> a , b \<close> stay in the entries, and the empty string gives one empty host.
\<close>

theorem NewServerList_splits:
  "snd (NewServerList arg) = None
   \<and> Join (fst (NewServerList arg)) (CHR '','') = arg
   \<and> (\<forall>entry \<in> set (fst (NewServerList arg)). CHR '','' \<notin> set entry)
   \<and> length (fst (NewServerList arg)) = Suc (count_list arg (CHR '',''))
   \<and> NewServerList ''a,b,c'' = ([''a'', ''b'', ''c''], None)
   \<and> NewServerList '' a , b '' = (['' a '', '' b ''], None)
   \<and> NewServerList [] = ([[]], None)"
  by (simp add: NewServerList_def Join_Split Split_no_sep length_Split)

theorem NewServerList_splits_witness:
  "snd (NewServerList '' a , b '') = None
   \<and> Join (fst (NewServerList '' a , b '')) (CHR '','') = '' a , b ''
   \<and> CHR '','' \<notin> set '' a ''
   \<and> length (fst (NewServerList '' a , b '')) = 2"
  using NewServerList_splits [of "'' a , b ''"] by (simp add: NewServerList_def)

text \<open>
  C1 as stated fails: the entries of \<open> a , b \<close> are not trimmed, and neither the empty
  string nor a string of blanks is rejected.
\<close>

theorem NewServerList_trim_counterexample:
  "fst (NewServerList '' a , b '') \<noteq> [''a'', ''b'']
   \<and> snd (NewServerList []) = None
   \<and> snd (NewServerList ''   '') = None"
  by (simp add: NewServerList_def)

text \<open>
  C9. \<^verbatim>\<open>NewServerList\<close> returns a nil error for every input, and the empty string gives
  the list of one empty host. So \<^verbatim>\<open>load\<close> never takes its branch
  \<^verbatim>\<open>usage(3, "Server list could not be parsed.")\<close>, and \<^verbatim>\<open>main\<close> of main.go, run with
  this parser, never takes its branch of lines 86 to 88.
\<close>

theorem parse_error_unreachable:
  "snd (NewServerList arg) = None
   \<and> NewServerList [] = ([[]], None)
   \<and> fst (load nse w lf t) \<noteq> Inl (usage_exit 3 [''Server list could not be parsed.''])
   \<and> fst (main (g\<lparr>pkg_NewServerList := NewServerList\<rparr>) w f t)
       \<noteq> Stopped (usage_exit 3 [''Server list could not be parsed: '' @ err])"
proof -
  have 1: "snd (NewServerList arg) = None" and 2: "NewServerList [] = ([[]], None)"
    by (simp_all add: NewServerList_def)
  have 3: "fst (load nse w lf t) \<noteq> Inl (usage_exit 3 [''Server list could not be parsed.''])"
    using load_usage_3 [of nse w lf t] by fastforce
  have 4: "fst (main (g\<lparr>pkg_NewServerList := NewServerList\<rparr>) w f t)
             \<noteq> Stopped (usage_exit 3 [''Server list could not be parsed: '' @ err])"
  proof
    let ?g = "g\<lparr>pkg_NewServerList := NewServerList\<rparr>"
    assume a: "fst (main ?g w f t)
                 = Stopped (usage_exit 3 [''Server list could not be parsed: '' @ err])"
    then have "fst (main_setup ?g w f t)
                 = Inl (usage_exit 3 [''Server list could not be parsed: '' @ err])"
      by (auto simp: main_def usage_def split: prod.splits sum.splits if_splits option.splits)
    from main_setup_usage_3 [OF this] show False
      by (simp add: NewServerList_def)
  qed
  from 1 2 3 4 show ?thesis by blast
qed

lemma example_load:
  "fst (load example_NewScriptExecutor example_world
          (example_load_flags\<lparr>flagProcs := procs\<rparr>) example_terminal)
   = Inr (example_Config\<lparr>NumProcs := procs\<rparr>)"
  by (simp add: load_def load_ssh_def load_auth_def getPrivateKey_def example_world_def
        example_load_flags_def example_Config_def NewServerList_def NewCommandExecutor_def
        Let_def)

text \<open>
  C2, as amended. The number that \<^verbatim>\<open>main\<close> of main.go hands to
  \<^verbatim>\<open>gclient.Routines\<close> is the number of hosts when the setting is -1 and the smaller
  of the setting and the number of hosts otherwise. The standalone program gives its own
  setting to \<^verbatim>\<open>execute\<close> as it is, and the number of goroutines that \<^verbatim>\<open>execute\<close>
  computes (lines 67 to 70) is the smaller of the setting and the number of hosts for
  every setting, -1 included.
\<close>

theorem effective_workers:
  "main_routines P servers =
     (if P = -1 then int (length servers) else min P (int (length servers)))
   \<and> (fst (main_setup g w f t) = Inr gclient \<longrightarrow>
        gc_routines gclient =
          (if procsFlag f = -1 then int (length (gc_servers gclient))
           else min (procsFlag f) (int (length (gc_servers gclient)))))
   \<and> (fst (load nse w lf t) = Inr Config \<longrightarrow>
        execute_threads Config = min (flagProcs lf) (int (length (ServerList Config))))"
proof -
  have 1: "main_routines P servers =
     (if P = -1 then int (length servers) else min P (int (length servers)))" for P servers
    by (simp add: main_routines_def min_def)
  have 2: "gc_routines gclient =
          (if procsFlag f = -1 then int (length (gc_servers gclient))
           else min (procsFlag f) (int (length (gc_servers gclient))))"
    if "fst (main_setup g w f t) = Inr gclient"
    using main_setup_Inr(5) [OF that] 1 by simp
  have 3: "execute_threads Config = min (flagProcs lf) (int (length (ServerList Config)))"
    if "fst (load nse w lf t) = Inr Config"
    using load_Inr(3) [OF that] by (simp add: execute_threads_min)
  from 1 2 3 show ?thesis by blast
qed

theorem effective_workers_witness:
  "fst (main_setup example_pkg example_world example_flags example_terminal)
     = Inr \<lparr>gc_servers = [''h1'', ''h2''], gc_port = 22, gc_proxyHost = [], gc_sudo = False,
            gc_routines = 2,
            gc_clientConfig =
              Some \<lparr>User = ''op'',
                    Auth = [None, Some (PublicKeys (Some (Signer ''KEY''))),
                            Some (PasswordCallback passwordCallback)],
                    HostKeyCallback = KnownHosts ''/home/op/.ssh/known_hosts'',
                    Timeout = 20000000000\<rparr>\<rparr>
   \<and> main_routines 4 [''h1'', ''h2''] = 2
   \<and> main_routines (- 1) [''h1'', ''h2''] = 2
   \<and> main_routines 1 [''h1'', ''h2''] = 1
   \<and> execute_threads (example_Config\<lparr>NumProcs := 1\<rparr>) = 1"
proof -
  have s: "fst (main_setup example_pkg example_world example_flags example_terminal)
     = Inr \<lparr>gc_servers = [''h1'', ''h2''], gc_port = 22, gc_proxyHost = [], gc_sudo = False,
            gc_routines = 2,
            gc_clientConfig =
              Some \<lparr>User = ''op'',
                    Auth = [None, Some (PublicKeys (Some (Signer ''KEY''))),
                            Some (PasswordCallback passwordCallback)],
                    HostKeyCallback = KnownHosts ''/home/op/.ssh/known_hosts'',
                    Timeout = 20000000000\<rparr>\<rparr>"
    by (simp add: main_setup_def example_pkg_def example_world_def example_flags_def
          NewServerList_def main_routines_def sshPrivateKey_def sshAgent_def sshPassword_def
          Let_def)
  show ?thesis
    using s
      effective_workers [where P = 4 and servers = "[''h1'', ''h2'']" and g = example_pkg
        and w = example_world and f = example_flags and t = example_terminal]
      effective_workers [of "- 1" "[''h1'', ''h2'']"]
      effective_workers [of 1 "[''h1'', ''h2'']"]
      effective_workers [where nse = example_NewScriptExecutor and w = example_world
        and lf = "example_load_flags\<lparr>flagProcs := 1\<rparr>" and t = example_terminal
        and Config = "example_Config\<lparr>NumProcs := 1\<rparr>"]
      example_load [of 1]
    by (simp add: example_Config_def)
qed

text \<open>
  C2 as stated fails in the standalone program: with the setting -1 and two hosts,
  \<^verbatim>\<open>execute\<close> computes -1 goroutines, not 2.
\<close>

theorem standalone_minus_one_counterexample:
  "fst (load example_NewScriptExecutor example_world
          (example_load_flags\<lparr>flagProcs := - 1\<rparr>) example_terminal)
     = Inr (example_Config\<lparr>NumProcs := - 1\<rparr>)
   \<and> length (ServerList (example_Config\<lparr>NumProcs := - 1\<rparr>)) = 2
   \<and> execute_threads (example_Config\<lparr>NumProcs := - 1\<rparr>) = - 1"
  using example_load [of "- 1"]
  by (simp add: example_Config_def execute_threads_def)

text \<open>
  C8, as amended. \<^verbatim>\<open>load\<close> makes both queues with the fixed capacity 100, whatever the
  host list is; the capacity is at least the number of hosts exactly when the host
  argument has fewer than 100 commas.
\<close>

theorem queue_capacities:
  "fst (load nse w f t) = Inr Config \<Longrightarrow>
     capacity (JobChannel (ComChannel Config)) = 100
     \<and> capacity (ResponseChannel (ComChannel Config)) = 100
     \<and> (length (ServerList Config) \<le> capacity (JobChannel (ComChannel Config))
          \<longleftrightarrow> count_list (flag_Args f ! 0) (CHR '','') < 100)"
  using load_Inr(1,2) [of nse w f t Config]
  by (simp add: make_chan_def NewServerList_def length_Split) arith

theorem queue_capacities_witness:
  "fst (load example_NewScriptExecutor example_world example_load_flags example_terminal)
     = Inr \<lparr>Handler = CommandExecutor [''uptime''], NumProcs = 4,
            ServerList = [''h1'', ''h2''], SSHPort = 22,
            SSHClientConfig =
              \<lparr>User = ''op'', Auth = [Some (PublicKeys (Some (Signer ''KEY'')))],
               HostKeyCallback = KnownHosts ''/home/op/.ssh/known_hosts'',
               Timeout = 20000000000\<rparr>,
            Sudo = False, Verbose = False,
            ComChannel = \<lparr>JobChannel = make_chan 100, ResponseChannel = make_chan 100\<rparr>\<rparr>
   \<and> capacity (make_chan 100 :: string chan) = 100"
proof -
  have l: "fst (load example_NewScriptExecutor example_world example_load_flags example_terminal)
     = Inr \<lparr>Handler = CommandExecutor [''uptime''], NumProcs = 4,
            ServerList = [''h1'', ''h2''], SSHPort = 22,
            SSHClientConfig =
              \<lparr>User = ''op'', Auth = [Some (PublicKeys (Some (Signer ''KEY'')))],
               HostKeyCallback = KnownHosts ''/home/op/.ssh/known_hosts'',
               Timeout = 20000000000\<rparr>,
            Sudo = False, Verbose = False,
            ComChannel = \<lparr>JobChannel = make_chan 100, ResponseChannel = make_chan 100\<rparr>\<rparr>"
    by (simp add: load_def load_ssh_def load_auth_def getPrivateKey_def example_world_def
          example_load_flags_def NewServerList_def NewCommandExecutor_def Let_def)
  from queue_capacities [OF l] l show ?thesis by simp
qed

text \<open>
  C8 as stated fails: a host argument of 100 commas is a list of 101 hosts, and the two
  queues of that run have capacity 100.
\<close>

theorem queue_capacity_counterexample:
  "map_sum id
     (\<lambda>Config. (length (ServerList Config), capacity (JobChannel (ComChannel Config)),
                capacity (ResponseChannel (ComChannel Config))))
     (fst (load example_NewScriptExecutor example_world
             (example_load_flags\<lparr>flag_Args := [replicate 100 (CHR '',''), ''uptime'']\<rparr>)
             example_terminal))
   = Inr (101, 100, 100)"
  by (simp add: load_def load_ssh_def load_auth_def getPrivateKey_def example_world_def
        example_load_flags_def NewServerList_def NewCommandExecutor_def Let_def
        length_Split make_chan_def count_list_replicate)

lemma main_Stopped:
  "fst (main_setup g w f t) = Inl st \<Longrightarrow> fst (main g w f t) = Stopped st"
  by (cases "main_setup g w f t") (simp add: main_def)





lemma main_setup_known_hosts:
  "\<not> helpFlag f \<Longrightarrow> \<not> versionFlag f \<Longrightarrow> Args f \<noteq> [] \<Longrightarrow>
   snd (pkg_NewServerList g (Args f ! 0)) = None \<Longrightarrow>
   \<not> strictHostCheckFlag f \<Longrightarrow>
   knownhosts_New w (Sprintf w (knownHostsFileFlag f)) = Inl err \<Longrightarrow>
   fst (main_setup g w f t)
     = Inl (log_Fatal (''Could not parse known_hosts file: '' @ err))"
  by (cases "pkg_NewServerList g (Args f ! 0)") (simp add: main_setup_def Let_def)

lemma main_setup_known_hosts_stops:
  "\<not> strictHostCheckFlag f \<Longrightarrow>
   knownhosts_New w (Sprintf w (knownHostsFileFlag f)) = Inl err \<Longrightarrow>
   \<exists>st. fst (main_setup g w f t) = Inl st"
  by (auto simp: main_setup_def usage_def Let_def split: prod.splits option.splits)




lemma load_known_hosts_stops:
  "\<not> flagStrictHostCheck f \<Longrightarrow>
   knownhosts_New w (Sprintf w (flagKnownHostsFile f)) = Inl err \<Longrightarrow>
   \<exists>st. fst (load nse w f t) = Inl st"
  by (auto simp: load_def load_ssh_def usage_def NewServerList_def Let_def
           split: sum.splits)

lemma load_ssh_known_hosts:
  "\<not> flagStrictHostCheck f \<Longrightarrow>
   knownhosts_New w (Sprintf w (flagKnownHostsFile f)) = Inl err \<Longrightarrow>
   fst (load_ssh w f t servers com executor)
     = Inl (log_Fatal (''Could not parse known_hosts file: '' @ err))"
  by (simp add: load_ssh_def)

lemma load_known_hosts:
  assumes "\<not> flagHelp f" "\<not> flagVersion f" "flagUser f \<noteq> []" "flag_Args f \<noteq> []"
    and "if flagScript f \<noteq> [] then \<exists>executor. nse (flagScript f) = Inr executor
         else drop 1 (flag_Args f) \<noteq> []"
    and "\<not> flagStrictHostCheck f"
    and "knownhosts_New w (Sprintf w (flagKnownHostsFile f)) = Inl err"
  shows "fst (load nse w f t)
           = Inl (log_Fatal (''Could not parse known_hosts file: '' @ err))"
  using assms
  by (auto simp: load_def NewServerList_def Let_def load_ssh_known_hosts split: if_splits)

lemma sshPrivateKey_cases:
  "(identityFile \<noteq> [] \<and> ReadFile w identityFile = Inl err \<longrightarrow>
      sshPrivateKey w identityFile = Inl (log_Fatal (''Could not read Identity File: '' @ err)))
   \<and> (identityFile \<noteq> [] \<and> ReadFile w identityFile = Inr key \<and> ParsePrivateKey w key = Inl err \<longrightarrow>
      sshPrivateKey w identityFile = Inl (log_Fatal (''Could not parse private key: '' @ err)))
   \<and> (ReadFile w (Getenv w ''HOME'' @ ''/.ssh/id_rsa'') = Inl err \<longrightarrow>
      sshPrivateKey w [] = Inr None)
   \<and> (ReadFile w (Getenv w ''HOME'' @ ''/.ssh/id_rsa'') = Inr key \<and> ParsePrivateKey w key = Inl err \<longrightarrow>
      sshPrivateKey w [] = Inl (log_Fatal (''Could not parse private key: '' @ err)))"
  by (simp add: sshPrivateKey_def Let_def)

lemma sshAuthMethods_shape:
  "fst (main_setup g w f t) = Inr gclient \<Longrightarrow>
   \<exists>sshClientConfig key.
     gc_clientConfig gclient = Some sshClientConfig
     \<and> sshPrivateKey w (identityFileFlag f) = Inr key
     \<and> Auth sshClientConfig = [sshAgent w, key, sshPassword]"
  by (auto simp: main_setup_def usage_def Let_def
           split: if_splits prod.splits option.splits sum.splits)




































lemma example_main_setup:
  "main_setup example_pkg example_world
     (example_flags\<lparr>scriptFlag := script, Args := ''h1,h2'' # commands\<rparr>) example_terminal
   = (Inr example_gclient, example_terminal)"
  by (simp add: main_setup_def example_pkg_def example_world_def example_flags_def
        example_gclient_def NewServerList_def main_routines_def sshPrivateKey_def
        sshAgent_def sshPassword_def Let_def)

lemma example_flags_eq:
  "example_flags = example_flags\<lparr>scriptFlag := [], Args := ''h1,h2'' # [''uptime'']\<rparr>"
  by (simp add: example_flags_def)



text \<open>
  C10. Strict checking of host keys is the default: the flag \<^verbatim>\<open>NoStrictHostCheck\<close>,
  which switches it off, defaults to false. With strict checking, a known-hosts file
  that \<^verbatim>\<open>knownhosts.New\<close> cannot load stops the run before the execution, where the
  hosts are contacted; unless an earlier test of \<^verbatim>\<open>main\<close> (help, version, host
  argument) has ended the run, it ends in \<^verbatim>\<open>log.Fatal\<close> with status 1. The same holds
  for \<^verbatim>\<open>load\<close>, which never returns a configuration then.
\<close>

theorem known_hosts_failure_is_fatal:
  "\<not> strictHostCheckFlag (default_flags w numCPU positional)
   \<and> \<not> flagStrictHostCheck (default_load_flags w numCPU positional)
   \<and> (\<not> strictHostCheckFlag f
        \<and> knownhosts_New w (Sprintf w (knownHostsFileFlag f)) = Inl err \<longrightarrow>
          \<not> hosts_contacted (fst (main g w f t))
          \<and> (\<not> helpFlag f \<and> \<not> versionFlag f \<and> Args f \<noteq> []
               \<and> snd (pkg_NewServerList g (Args f ! 0)) = None \<longrightarrow>
                 fst (main g w f t)
                   = Stopped (log_Fatal (''Could not parse known_hosts file: '' @ err))
                 \<and> main_exit g w f t = 1))
   \<and> (\<not> flagStrictHostCheck lf
        \<and> knownhosts_New w (Sprintf w (flagKnownHostsFile lf)) = Inl err \<longrightarrow>
          load_exit nse w lf t \<noteq> None
          \<and> (\<not> flagHelp lf \<and> \<not> flagVersion lf \<and> flagUser lf \<noteq> [] \<and> flag_Args lf \<noteq> []
               \<and> (if flagScript lf \<noteq> [] then \<exists>executor. nse (flagScript lf) = Inr executor
                   else drop 1 (flag_Args lf) \<noteq> []) \<longrightarrow>
                 fst (load nse w lf t)
                   = Inl (log_Fatal (''Could not parse known_hosts file: '' @ err))
                 \<and> load_exit nse w lf t = Some 1))"
proof -
  have d: "\<not> strictHostCheckFlag (default_flags w numCPU positional)"
    "\<not> flagStrictHostCheck (default_load_flags w numCPU positional)"
    by (simp_all add: default_flags_def default_load_flags_def)
  have m: "\<not> hosts_contacted (fst (main g w f t))
          \<and> (\<not> helpFlag f \<and> \<not> versionFlag f \<and> Args f \<noteq> []
               \<and> snd (pkg_NewServerList g (Args f ! 0)) = None \<longrightarrow>
                 fst (main g w f t)
                   = Stopped (log_Fatal (''Could not parse known_hosts file: '' @ err))
                 \<and> main_exit g w f t = 1)"
    if a: "\<not> strictHostCheckFlag f"
      "knownhosts_New w (Sprintf w (knownHostsFileFlag f)) = Inl err"
  proof -
    from main_setup_known_hosts_stops [OF a] obtain st
      where "fst (main_setup g w f t) = Inl st" by blast
    then have 1: "\<not> hosts_contacted (fst (main g w f t))"
      by (simp add: main_Stopped)
    have 2: "fst (main g w f t)
               = Stopped (log_Fatal (''Could not parse known_hosts file: '' @ err))
             \<and> main_exit g w f t = 1"
      if "\<not> helpFlag f" "\<not> versionFlag f" "Args f \<noteq> []"
        "snd (pkg_NewServerList g (Args f ! 0)) = None"
      using that a by (simp add: main_Stopped main_setup_known_hosts main_exit_def)
    from 1 2 show ?thesis by blast
  qed
  have l: "load_exit nse w lf t \<noteq> None
          \<and> (\<not> flagHelp lf \<and> \<not> flagVersion lf \<and> flagUser lf \<noteq> [] \<and> flag_Args lf \<noteq> []
               \<and> (if flagScript lf \<noteq> [] then \<exists>executor. nse (flagScript lf) = Inr executor
                   else drop 1 (flag_Args lf) \<noteq> []) \<longrightarrow>
                 fst (load nse w lf t)
                   = Inl (log_Fatal (''Could not parse known_hosts file: '' @ err))
                 \<and> load_exit nse w lf t = Some 1)"
    if a: "\<not> flagStrictHostCheck lf"
      "knownhosts_New w (Sprintf w (flagKnownHostsFile lf)) = Inl err"
  proof -
    from load_known_hosts_stops [OF a] obtain st
      where "fst (load nse w lf t) = Inl st" by blast
    then have 1: "load_exit nse w lf t \<noteq> None"
      by (simp add: load_exit_def)
    have 2: "fst (load nse w lf t)
               = Inl (log_Fatal (''Could not parse known_hosts file: '' @ err))
             \<and> load_exit nse w lf t = Some 1"
      if "\<not> flagHelp lf" "\<not> flagVersion lf" "flagUser lf \<noteq> []" "flag_Args lf \<noteq> []"
        "if flagScript lf \<noteq> [] then \<exists>executor. nse (flagScript lf) = Inr executor
         else drop 1 (flag_Args lf) \<noteq> []"
      using that a by (simp add: load_known_hosts load_exit_def)
    from 1 2 show ?thesis by blast
  qed
  from d m l show ?thesis by blast
qed

theorem known_hosts_failure_is_fatal_witness:
  "fst (main example_pkg no_known_hosts_world example_flags example_terminal)
     = Stopped (log_Fatal
         ''Could not parse known_hosts file: open: no such file or directory'')
   \<and> \<not> hosts_contacted
         (fst (main example_pkg no_known_hosts_world example_flags example_terminal))
   \<and> fst (load example_NewScriptExecutor no_known_hosts_world example_load_flags
            example_terminal)
       = Inl (log_Fatal
           ''Could not parse known_hosts file: open: no such file or directory'')"
  using known_hosts_failure_is_fatal [where w = no_known_hosts_world and f = example_flags
      and g = example_pkg and t = example_terminal and lf = example_load_flags
      and nse = example_NewScriptExecutor
      and err = "''open: no such file or directory''"]
  by (simp add: no_known_hosts_world_def example_world_def example_flags_def
        example_load_flags_def example_pkg_def NewServerList_def)

text \<open>
  C3, at the failing input: no identity file is given and the default key file can be
  read but does not parse. \<^verbatim>\<open>sshPrivateKey\<close> ends the run with \<^verbatim>\<open>log.Fatal\<close>, as does
  \<^verbatim>\<open>getPrivateKey\<close> called with \<^verbatim>\<open>failOnErr = false\<close>.
\<close>

theorem default_key_parse_failure_is_fatal:
  "identityFileFlag example_flags = []
   \<and> ReadFile unparsable_key_world ''/home/op/.ssh/id_rsa'' = Inr ''KEY''
   \<and> sshPrivateKey unparsable_key_world []
       = Inl (log_Fatal ''Could not parse private key: ssh: no key found'')
   \<and> fst (main example_pkg unparsable_key_world example_flags example_terminal)
       = Stopped (log_Fatal ''Could not parse private key: ssh: no key found'')
   \<and> main_exit example_pkg unparsable_key_world example_flags example_terminal = 1
   \<and> getPrivateKey unparsable_key_world ''/home/op/.ssh/id_rsa'' False
       = Inl (log_Fatal ''Could not parse private key: ssh: no key found'')
   \<and> fst (load example_NewScriptExecutor unparsable_key_world example_load_flags
            example_terminal)
       = Inl (log_Fatal ''Could not parse private key: ssh: no key found'')"
proof -
  have s: "fst (main_setup example_pkg unparsable_key_world example_flags example_terminal)
             = Inl (log_Fatal ''Could not parse private key: ssh: no key found'')"
    by (simp add: main_setup_def example_pkg_def example_world_def example_flags_def
          unparsable_key_world_def NewServerList_def sshPrivateKey_def Let_def)
  have l: "fst (load example_NewScriptExecutor unparsable_key_world example_load_flags
                  example_terminal)
             = Inl (log_Fatal ''Could not parse private key: ssh: no key found'')"
    by (simp add: load_def load_ssh_def load_auth_def getPrivateKey_def example_world_def
          example_load_flags_def unparsable_key_world_def NewServerList_def Let_def)
  show ?thesis
    using main_Stopped [OF s] l
    by (simp add: main_exit_def sshPrivateKey_def getPrivateKey_def
          unparsable_key_world_def example_world_def example_flags_def Let_def)
qed

text \<open>
  C5, at the failing input: no agent listens on the socket. \<^verbatim>\<open>sshAgent\<close> returns
  \<^verbatim>\<open>nil\<close>, and the list of authentication methods that \<^verbatim>\<open>main\<close> puts into the client
  configuration has three entries, the first of them \<^verbatim>\<open>nil\<close>.
\<close>

theorem unreachable_agent_leaves_nil_entry:
  "Dial_unix example_world (Getenv example_world ''SSH_AUTH_SOCK'') = Inl ''connection refused''
   \<and> sshAgent example_world = None
   \<and> map_sum id (\<lambda>gclient. map_option Auth (gc_clientConfig gclient))
       (fst (main_setup example_pkg example_world example_flags example_terminal))
       = Inr (Some [None, Some (PublicKeys (Some (Signer ''KEY''))),
                    Some (PasswordCallback passwordCallback)])"
  using example_main_setup [where script = "[]" and commands = "[''uptime'']"]
  by (simp add: example_flags_eq [symmetric] example_gclient_def sshAgent_def
        example_world_def)

lemma reachable_agent_is_first:
  "fst (main_setup g w f t) = Inr gclient \<Longrightarrow>
   Dial_unix w (Getenv w ''SSH_AUTH_SOCK'') = Inr authSock \<Longrightarrow>
   \<exists>sshClientConfig rest.
     gc_clientConfig gclient = Some sshClientConfig
     \<and> Auth sshClientConfig = Some (PublicKeysCallback authSock) # rest"
  using sshAuthMethods_shape [of g w f t gclient] by (auto simp: sshAgent_def)

section \<open>The password prompt\<close>

declare TrimLeft.simps [simp del] TrimRight.simps [simp del]

lemma trailing_space_TrimRight: "trailing_space (TrimRight s) = 0"
proof (induction s rule: TrimRight.induct)
  case (1 s)
  show ?case
  proof (cases "trailing_space s = 0")
    case True
    then show ?thesis by (subst TrimRight.simps) simp
  next
    case False
    with 1 show ?thesis by (subst TrimRight.simps) simp
  qed
qed

lemma unicode_spaces_not_Nil: "sp \<in> set unicode_spaces \<Longrightarrow> sp \<noteq> []"
  by (auto simp: unicode_spaces_def)

lemma leading_space_0_iff:
  "leading_space s = 0 \<longleftrightarrow> (\<forall>sp \<in> set unicode_spaces. take (length sp) s \<noteq> sp)"
proof (cases "List.find (\<lambda>sp. take (length sp) s = sp) unicode_spaces")
  case None
  then have "leading_space s = 0" by (simp add: leading_space_def)
  moreover from None have "\<forall>sp \<in> set unicode_spaces. take (length sp) s \<noteq> sp"
    by (auto simp: find_None_iff)
  ultimately show ?thesis by simp
next
  case (Some sp)
  then have "sp \<in> set unicode_spaces" "take (length sp) s = sp"
    by (auto simp: find_Some_iff)
  with Some unicode_spaces_not_Nil [of sp] show ?thesis
    by (auto simp: leading_space_def)
qed

lemma leading_space_take:
  assumes "leading_space u = 0"
  shows "leading_space (take k u) = 0"
  unfolding leading_space_0_iff
proof
  fix sp
  assume sp: "sp \<in> set unicode_spaces"
  show "take (length sp) (take k u) \<noteq> sp"
  proof
    assume e: "take (length sp) (take k u) = sp"
    then have "length (take (length sp) (take k u)) = length sp" by simp
    then have "length sp \<le> k" by simp
    with e have "take (length sp) u = sp" by (simp add: min_absorb1)
    with assms sp show False by (simp add: leading_space_0_iff)
  qed
qed

lemma leading_space_TrimLeft: "leading_space (TrimLeft s) = 0"
proof (induction s rule: TrimLeft.induct)
  case (1 s)
  show ?case
  proof (cases "leading_space s = 0")
    case True
    then show ?thesis by (subst TrimLeft.simps) simp
  next
    case False
    with 1 show ?thesis by (subst TrimLeft.simps) simp
  qed
qed

lemma leading_space_TrimRight: "leading_space s = 0 \<Longrightarrow> leading_space (TrimRight s) = 0"
proof (induction s rule: TrimRight.induct)
  case (1 s)
  show ?case
  proof (cases "trailing_space s = 0")
    case True
    with 1 show ?thesis by (subst TrimRight.simps) simp
  next
    case False
    with 1 leading_space_take [of s "length s - trailing_space s"] show ?thesis
      by (subst TrimRight.simps) simp
  qed
qed

lemma leading_space_TrimSpace: "leading_space (TrimSpace s) = 0"
  by (simp add: TrimSpace_def leading_space_TrimRight leading_space_TrimLeft)

lemma TrimLeft_drop: "\<exists>n. TrimLeft s = drop n s"
proof (induction s rule: TrimLeft.induct)
  case (1 s)
  show ?case
  proof (cases "leading_space s = 0")
    case True
    then have "TrimLeft s = drop 0 s" by (subst TrimLeft.simps) simp
    then show ?thesis by blast
  next
    case False
    with 1 obtain n where "TrimLeft (drop (leading_space s) s) = drop n (drop (leading_space s) s)"
      by blast
    with False have "TrimLeft s = drop (n + leading_space s) s"
      by (subst TrimLeft.simps) simp
    then show ?thesis by blast
  qed
qed

lemma TrimRight_take: "\<exists>n. TrimRight s = take n s"
proof (induction s rule: TrimRight.induct)
  case (1 s)
  show ?case
  proof (cases "trailing_space s = 0")
    case True
    then have "TrimRight s = take (length s) s" by (subst TrimRight.simps) simp
    then show ?thesis by blast
  next
    case False
    with 1 obtain n where
      "TrimRight (take (length s - trailing_space s) s)
         = take n (take (length s - trailing_space s) s)"
      by blast
    with False have "TrimRight s = take (min n (length s - trailing_space s)) s"
      by (subst TrimRight.simps) simp
    then show ?thesis by blast
  qed
qed

lemma TrimSpace_part: "\<exists>left right. s = left @ TrimSpace s @ right"
proof -
  obtain n where n: "TrimLeft s = drop n s" using TrimLeft_drop by blast
  obtain m where m: "TrimRight (TrimLeft s) = take m (TrimLeft s)"
    using TrimRight_take by blast
  have "take m (drop n s) @ drop m (drop n s) = drop n s"
    by (rule append_take_drop_id)
  then have "s = take n s @ take m (drop n s) @ drop m (drop n s)"
    by (simp only: append_take_drop_id)
  with n m show ?thesis unfolding TrimSpace_def by metis
qed

lemma passwordCallback_terminal:
  "snd (passwordCallback t)
     = \<lparr>stdout = stdout t @ ''Password: '' @ [CHR 0x0A], stdin = drop 1 (stdin t)\<rparr>"
  by (cases "stdin t"; cases t)
     (auto simp: passwordCallback_def Print_def Println_def ReadPassword_def Let_def
           split: sum.splits)

lemma passwordCallback_result:
  "stdin t = Inr password # rest \<Longrightarrow> fst (passwordCallback t) = (TrimSpace password, None)"
  by (simp add: passwordCallback_def Print_def Println_def ReadPassword_def Let_def)

lemma passwordPrompt_eq: "passwordPrompt = passwordCallback"
  by (rule ext) (simp add: passwordPrompt_def passwordCallback_def)

lemma main_setup_stdin: "stdin (snd (main_setup g w f t)) = stdin t"
  by (auto simp: main_setup_def usage_def Println_def Let_def
           split: prod.splits option.splits sum.splits)

lemma negotiate_keys:
  "\<forall>m \<in> set keys. \<not> is_password m \<Longrightarrow>
   negotiate accepts (keys @ rest) t =
     (if \<exists>m \<in> set keys. key_accepted accepts m then (True, t)
      else negotiate accepts rest t)"
proof (induction keys)
  case Nil
  show ?case by simp
next
  case (Cons m keys)
  then show ?case by (cases m) auto
qed

lemma negotiate_password_last:
  "snd (negotiate accepts [PasswordCallback prompt] t) = snd (prompt t)"
  by (auto split: prod.splits option.splits)

lemma main_offered:
  assumes "fst (main_setup g w f t) = Inr gclient"
  shows "\<exists>sshClientConfig keys.
           gc_clientConfig gclient = Some sshClientConfig
           \<and> offered (Auth sshClientConfig) = keys @ [PasswordCallback passwordCallback]
           \<and> (\<forall>m \<in> set keys. \<not> is_password m)"
proof -
  from sshAuthMethods_shape [OF assms] obtain sshClientConfig key
    where c: "gc_clientConfig gclient = Some sshClientConfig"
      and k: "sshPrivateKey w (identityFileFlag f) = Inr key"
      and a: "Auth sshClientConfig = [sshAgent w, key, sshPassword]"
    by blast
  from k have "key = None \<or> (\<exists>signer. key = Some (PublicKeys signer))"
    by (auto simp: sshPrivateKey_def Let_def split: sum.splits if_splits)
  moreover have "sshAgent w = None \<or> (\<exists>agent. sshAgent w = Some (PublicKeysCallback agent))"
    by (auto simp: sshAgent_def split: sum.splits)
  ultimately have "offered [sshAgent w, key, sshPassword]
                     = offered [sshAgent w, key] @ [PasswordCallback passwordCallback]
                   \<and> (\<forall>m \<in> set (offered [sshAgent w, key]). \<not> is_password m)"
    by (auto simp: sshPassword_def)
  with c a show ?thesis by metis
qed

lemma load_auth_prompts:
  "flagIdentityFile f = [] \<Longrightarrow>
   ReadFile w (Getenv w ''HOME'' @ ''/.ssh/id_rsa'') = Inl err \<Longrightarrow>
   snd (load_auth w f t) = snd (passwordPrompt t)"
  by (cases "passwordPrompt t")
     (auto simp: load_auth_def getPrivateKey_def split: option.splits)

lemma load_ssh_prompts:
  "flagStrictHostCheck f
     \<or> (\<exists>callback. knownhosts_New w (Sprintf w (flagKnownHostsFile f)) = Inr callback) \<Longrightarrow>
   flagIdentityFile f = [] \<Longrightarrow>
   ReadFile w (Getenv w ''HOME'' @ ''/.ssh/id_rsa'') = Inl err \<Longrightarrow>
   snd (load_ssh w f t servers com executor) = snd (passwordPrompt t)"
  using load_auth_prompts [of f w err t]
  by (cases "load_auth w f t") (auto simp: load_ssh_def split: sum.splits)

lemma load_prompts:
  assumes "\<not> flagHelp f" "\<not> flagVersion f" "flagUser f \<noteq> []" "flag_Args f \<noteq> []"
    and "if flagScript f \<noteq> [] then \<exists>executor. nse (flagScript f) = Inr executor
         else drop 1 (flag_Args f) \<noteq> []"
    and "flagStrictHostCheck f
         \<or> (\<exists>callback. knownhosts_New w (Sprintf w (flagKnownHostsFile f)) = Inr callback)"
    and "flagIdentityFile f = []"
    and "ReadFile w (Getenv w ''HOME'' @ ''/.ssh/id_rsa'') = Inl err"
  shows "snd (load nse w f t) = snd (passwordPrompt t)"
  using assms(1-5) load_ssh_prompts [OF assms(6-8)]
  by (auto simp: load_def NewServerList_def Let_def split: if_splits)

text \<open>
  C4, as amended. In main.go the password provider is a closure: setting up the run
  reads nothing from the terminal, and the closure is the last method of the list and
  its only password method. One call of the closure prints the prompt and a newline,
  takes one line from the input without printing it, and returns that line without the
  white space at its end and at its start (\<^verbatim>\<open>TrimSpace\<close> cuts both ends and nothing
  else). In a
  negotiation that tries the methods in order and stops at the first success, the
  closure is called once or not at all, and not at all when an earlier method succeeds.
  The standalone program differs: when no identity file is given and the default key
  file cannot be read, \<^verbatim>\<open>load\<close> itself prompts, and the callback it registers
  returns the stored password without touching the terminal.
\<close>

theorem password_prompt:
  "stdin (snd (main_setup g w f t)) = stdin t
   \<and> (fst (main_setup g w f t) = Inr gclient \<longrightarrow>
        (\<exists>sshClientConfig keys.
           gc_clientConfig gclient = Some sshClientConfig
           \<and> offered (Auth sshClientConfig) = keys @ [PasswordCallback passwordCallback]
           \<and> (\<forall>m \<in> set keys. \<not> is_password m)
           \<and> (snd (negotiate accepts (offered (Auth sshClientConfig)) t') = t'
                \<or> snd (negotiate accepts (offered (Auth sshClientConfig)) t')
                    = snd (passwordCallback t'))
           \<and> ((\<exists>m \<in> set keys. key_accepted accepts m) \<longrightarrow>
                 snd (negotiate accepts (offered (Auth sshClientConfig)) t') = t')))
   \<and> snd (passwordCallback t)
       = \<lparr>stdout = stdout t @ ''Password: '' @ [CHR 0x0A], stdin = drop 1 (stdin t)\<rparr>
   \<and> (stdin t = Inr password # rest \<longrightarrow>
        fst (passwordCallback t) = (TrimSpace password, None))
   \<and> trailing_space (TrimSpace password) = 0
   \<and> leading_space (TrimSpace password) = 0
   \<and> (\<exists>left right. password = left @ TrimSpace password @ right)
   \<and> (\<not> flagHelp lf \<and> \<not> flagVersion lf \<and> flagUser lf \<noteq> [] \<and> flag_Args lf \<noteq> []
        \<and> (if flagScript lf \<noteq> [] then \<exists>executor. nse (flagScript lf) = Inr executor
            else drop 1 (flag_Args lf) \<noteq> [])
        \<and> (flagStrictHostCheck lf
             \<or> (\<exists>callback. knownhosts_New w (Sprintf w (flagKnownHostsFile lf)) = Inr callback))
        \<and> flagIdentityFile lf = []
        \<and> ReadFile w (Getenv w ''HOME'' @ ''/.ssh/id_rsa'') = Inl err \<longrightarrow>
          snd (load nse w lf t) = snd (passwordCallback t))
   \<and> p0_passwordCallback password t = ((password, None), t)"
proof -
  have n: "\<exists>sshClientConfig keys.
           gc_clientConfig gclient = Some sshClientConfig
           \<and> offered (Auth sshClientConfig) = keys @ [PasswordCallback passwordCallback]
           \<and> (\<forall>m \<in> set keys. \<not> is_password m)
           \<and> (snd (negotiate accepts (offered (Auth sshClientConfig)) t') = t'
                \<or> snd (negotiate accepts (offered (Auth sshClientConfig)) t')
                    = snd (passwordCallback t'))
           \<and> ((\<exists>m \<in> set keys. key_accepted accepts m) \<longrightarrow>
                 snd (negotiate accepts (offered (Auth sshClientConfig)) t') = t')"
    if "fst (main_setup g w f t) = Inr gclient"
  proof -
    from main_offered [OF that] obtain sshClientConfig keys
      where c: "gc_clientConfig gclient = Some sshClientConfig"
        and o: "offered (Auth sshClientConfig) = keys @ [PasswordCallback passwordCallback]"
        and k: "\<forall>m \<in> set keys. \<not> is_password m"
      by blast
    have e: "negotiate accepts (keys @ [PasswordCallback passwordCallback]) t' =
               (if \<exists>m \<in> set keys. key_accepted accepts m then (True, t')
                else negotiate accepts [PasswordCallback passwordCallback] t')"
      by (rule negotiate_keys [OF k])
    have 1: "snd (negotiate accepts (offered (Auth sshClientConfig)) t') = t'
             \<or> snd (negotiate accepts (offered (Auth sshClientConfig)) t')
                 = snd (passwordCallback t')"
      unfolding o e using negotiate_password_last [of accepts passwordCallback t']
      by (cases "\<exists>m \<in> set keys. key_accepted accepts m") simp_all
    have 2: "(\<exists>m \<in> set keys. key_accepted accepts m) \<longrightarrow>
               snd (negotiate accepts (offered (Auth sshClientConfig)) t') = t'"
      unfolding o e by simp
    from c o k 1 2 show ?thesis by blast
  qed
  have l: "snd (load nse w lf t) = snd (passwordCallback t)"
    if "\<not> flagHelp lf \<and> \<not> flagVersion lf \<and> flagUser lf \<noteq> [] \<and> flag_Args lf \<noteq> []
        \<and> (if flagScript lf \<noteq> [] then \<exists>executor. nse (flagScript lf) = Inr executor
            else drop 1 (flag_Args lf) \<noteq> [])
        \<and> (flagStrictHostCheck lf
             \<or> (\<exists>callback. knownhosts_New w (Sprintf w (flagKnownHostsFile lf)) = Inr callback))
        \<and> flagIdentityFile lf = []
        \<and> ReadFile w (Getenv w ''HOME'' @ ''/.ssh/id_rsa'') = Inl err"
  proof -
    have "snd (load nse w lf t) = snd (passwordPrompt t)"
      by (rule load_prompts [where err = err]) (use that in blast)+
    then show ?thesis by (simp add: passwordPrompt_eq)
  qed
  have p: "p0_passwordCallback password t = ((password, None), t)"
    by (simp add: p0_passwordCallback_def)
  have r: "stdin t = Inr password # rest \<longrightarrow>
             fst (passwordCallback t) = (TrimSpace password, None)"
    by (simp add: passwordCallback_result)
  have ts: "trailing_space (TrimSpace password) = 0"
    by (simp add: TrimSpace_def trailing_space_TrimRight)
  from n have n': "fst (main_setup g w f t) = Inr gclient \<longrightarrow>
        (\<exists>sshClientConfig keys.
           gc_clientConfig gclient = Some sshClientConfig
           \<and> offered (Auth sshClientConfig) = keys @ [PasswordCallback passwordCallback]
           \<and> (\<forall>m \<in> set keys. \<not> is_password m)
           \<and> (snd (negotiate accepts (offered (Auth sshClientConfig)) t') = t'
                \<or> snd (negotiate accepts (offered (Auth sshClientConfig)) t')
                    = snd (passwordCallback t'))
           \<and> ((\<exists>m \<in> set keys. key_accepted accepts m) \<longrightarrow>
                 snd (negotiate accepts (offered (Auth sshClientConfig)) t') = t'))"
    by (rule impI)
  from l have l': "\<not> flagHelp lf \<and> \<not> flagVersion lf \<and> flagUser lf \<noteq> [] \<and> flag_Args lf \<noteq> []
        \<and> (if flagScript lf \<noteq> [] then \<exists>executor. nse (flagScript lf) = Inr executor
            else drop 1 (flag_Args lf) \<noteq> [])
        \<and> (flagStrictHostCheck lf
             \<or> (\<exists>callback. knownhosts_New w (Sprintf w (flagKnownHostsFile lf)) = Inr callback))
        \<and> flagIdentityFile lf = []
        \<and> ReadFile w (Getenv w ''HOME'' @ ''/.ssh/id_rsa'') = Inl err \<longrightarrow>
          snd (load nse w lf t) = snd (passwordCallback t)"
    by (rule impI)
  show ?thesis
    by (intro conjI)
       (rule main_setup_stdin n' passwordCallback_terminal r ts leading_space_TrimSpace
          TrimSpace_part l' p)+
qed

lemma TrimSpace_example: "TrimSpace ''secret  '' = ''secret''"
  by code_simp

lemma example_load_prompt:
  "load example_NewScriptExecutor no_key_world example_load_flags example_terminal
   = (Inr \<lparr>Handler = CommandExecutor [''uptime''], NumProcs = 4,
           ServerList = [''h1'', ''h2''], SSHPort = 22,
           SSHClientConfig =
             \<lparr>User = ''op'',
              Auth = [Some (PasswordCallback (p0_passwordCallback ''secret''))],
              HostKeyCallback = KnownHosts ''/home/op/.ssh/known_hosts'',
              Timeout = 20000000000\<rparr>,
           Sudo = False, Verbose = False,
           ComChannel = \<lparr>JobChannel = make_chan 100, ResponseChannel = make_chan 100\<rparr>\<rparr>,
      \<lparr>stdout = ''Password: '' @ [CHR 0x0A], stdin = []\<rparr>)"
  by (simp add: load_def load_ssh_def load_auth_def getPrivateKey_def passwordPrompt_def
        Print_def Println_def ReadPassword_def example_world_def no_key_world_def
        example_load_flags_def example_terminal_def NewServerList_def
        NewCommandExecutor_def TrimSpace_example Let_def)

theorem password_prompt_witness:
  "negotiate (\<lambda>offer. offer = KeySigner (Some (Signer ''KEY'')))
     [PublicKeys (Some (Signer ''KEY'')), PasswordCallback passwordCallback] example_terminal
     = (True, example_terminal)
   \<and> negotiate (\<lambda>offer. offer = Password ''secret'')
       [PublicKeys (Some (Signer ''KEY'')), PasswordCallback passwordCallback] example_terminal
     = (True, \<lparr>stdout = ''Password: '' @ [CHR 0x0A], stdin = []\<rparr>)
   \<and> passwordCallback example_terminal
     = ((''secret'', None), \<lparr>stdout = ''Password: '' @ [CHR 0x0A], stdin = []\<rparr>)
   \<and> snd (load example_NewScriptExecutor no_key_world example_load_flags example_terminal)
     = \<lparr>stdout = ''Password: '' @ [CHR 0x0A], stdin = []\<rparr>"
proof -
  note p = password_prompt [where g = example_pkg and w = example_world
      and f = "example_flags\<lparr>scriptFlag := [], Args := ''h1,h2'' # [''uptime'']\<rparr>"
      and t = example_terminal and gclient = example_gclient and t' = example_terminal
      and password = "''secret  ''" and rest = "[]"]
  have c: "passwordCallback example_terminal
             = ((''secret'', None), \<lparr>stdout = ''Password: '' @ [CHR 0x0A], stdin = []\<rparr>)"
    using p [THEN conjunct2, THEN conjunct2]
    by (simp add: example_terminal_def TrimSpace_example prod_eq_iff)
  have 1: "negotiate (\<lambda>offer. offer = KeySigner (Some (Signer ''KEY'')))
     [PublicKeys (Some (Signer ''KEY'')), PasswordCallback passwordCallback] example_terminal
     = (True, example_terminal)"
    by simp
  have 2: "negotiate (\<lambda>offer. offer = Password ''secret'')
       [PublicKeys (Some (Signer ''KEY'')), PasswordCallback passwordCallback] example_terminal
     = (True, \<lparr>stdout = ''Password: '' @ [CHR 0x0A], stdin = []\<rparr>)"
    using c by simp
  have 3: "snd (load example_NewScriptExecutor no_key_world example_load_flags example_terminal)
     = \<lparr>stdout = ''Password: '' @ [CHR 0x0A], stdin = []\<rparr>"
    using password_prompt [where lf = example_load_flags and w = no_key_world
        and nse = example_NewScriptExecutor and t = example_terminal
        and err = "''no such file''"] c
    by (simp add: example_load_flags_def no_key_world_def example_world_def)
  from 1 2 c 3 show ?thesis by (intro conjI)
qed

text \<open>
  C4 as stated fails in the standalone program: without a default key file, \<^verbatim>\<open>load\<close>
  has taken the password from the terminal when it returns the configuration, before
  any session is negotiated, and the registered callback holds the password.
\<close>

theorem eager_prompt_counterexample:
  "stdin example_terminal = [Inr ''secret  '']
   \<and> snd (load example_NewScriptExecutor no_key_world example_load_flags example_terminal)
       = \<lparr>stdout = ''Password: '' @ [CHR 0x0A], stdin = []\<rparr>
   \<and> map_sum id (\<lambda>Config. Auth (SSHClientConfig Config))
       (fst (load example_NewScriptExecutor no_key_world example_load_flags example_terminal))
       = Inr [Some (PasswordCallback (p0_passwordCallback ''secret''))]"
proof -
  have 1: "stdin example_terminal = [Inr ''secret  '']"
    by (simp add: example_terminal_def)
  have 2: "snd (load example_NewScriptExecutor no_key_world example_load_flags
                  example_terminal)
             = \<lparr>stdout = ''Password: '' @ [CHR 0x0A], stdin = []\<rparr>"
    by (simp add: example_load_prompt)
  have 3: "map_sum id (\<lambda>Config. Auth (SSHClientConfig Config))
             (fst (load example_NewScriptExecutor no_key_world example_load_flags
                     example_terminal))
             = Inr [Some (PasswordCallback (p0_passwordCallback ''secret''))]"
    by (simp add: example_load_prompt)
  from 1 2 3 show ?thesis by (intro conjI)
qed

section \<open>The worker pool: every host is answered once\<close>

lemma holding_update:
  "k < length ws \<Longrightarrow>
   mset (holding (ws[k := w])) + mset (holding [ws ! k])
     = mset (holding ws) + mset (holding [w])"
proof (induction ws arbitrary: k)
  case Nil
  then show ?case by simp
next
  case (Cons v ws)
  show ?case
  proof (cases k)
    case 0
    then show ?thesis by (cases v; cases w) simp_all
  next
    case (Suc j)
    with Cons.prems have "j < length ws" by simp
    from Cons.IH [OF this] Suc show ?thesis by (cases v) simp_all
  qed
qed

lemma worker_steps_update:
  "k < length ws \<Longrightarrow>
   sum_list (map worker_steps (ws[k := w])) + worker_steps (ws ! k)
     = sum_list (map worker_steps ws) + worker_steps w"
proof (induction ws arbitrary: k)
  case Nil
  then show ?case by simp
next
  case (Cons v ws)
  show ?case
  proof (cases k)
    case 0
    then show ?thesis by simp
  next
    case (Suc j)
    with Cons.prems have "j < length ws" by simp
    from Cons.IH [OF this] Suc show ?thesis by simp
  qed
qed

lemma holding_Nil: "holding ws = [] \<longleftrightarrow> (\<forall>host. Executing host \<notin> set ws)"
proof (induction ws)
  case Nil
  show ?case by simp
next
  case (Cons v ws)
  then show ?case by (cases v) auto
qed

lemma step_Some:
  "step Config a s = Some s' \<longleftrightarrow> \<not> finished s \<and> move Config a s = Some s'"
  by (simp add: step_def)

lemma step_steps_left:
  assumes "step Config a s = Some s'"
  shows "steps_left s = Suc (steps_left s')"
proof -
  from assms have f: "\<not> finished s" and m: "move Config a s = Some s'"
    by (simp_all add: step_Some)
  show ?thesis
  proof (cases a)
    case Send
    with m f show ?thesis
      by (auto simp: steps_left_def split: list.splits if_splits)
  next
    case Close
    with m f show ?thesis
      by (auto simp: steps_left_def split: list.splits if_splits)
  next
    case (Dequeue k)
    with m f worker_steps_update [of k "workers s" "Executing (hd (buffer (jobs s)))"]
    show ?thesis
      by (auto simp: steps_left_def split: list.splits if_splits)
  next
    case (Return k)
    with m f worker_steps_update [of k "workers s" Returned]
    show ?thesis
      by (auto simp: steps_left_def split: list.splits if_splits)
  next
    case (Respond k data)
    with m f worker_steps_update [of k "workers s" Dequeuing]
    show ?thesis
      by (auto simp: steps_left_def split: list.splits if_splits worker.splits)
  next
    case Collect
    with m f show ?thesis
      by (auto simp: steps_left_def split: list.splits if_splits)
  next
    case Finish
    with m f show ?thesis
      by (auto simp: steps_left_def split: list.splits if_splits)
  qed
qed

lemma step_hosts_of:
  assumes "step Config a s = Some s'"
  shows "hosts_of s' = hosts_of s"
proof -
  from assms have m: "move Config a s = Some s'"
    by (simp add: step_Some)
  show ?thesis
  proof (cases a)
    case Send
    with m show ?thesis
      by (auto simp: hosts_of_def split: list.splits if_splits)
  next
    case Close
    with m show ?thesis
      by (auto simp: hosts_of_def split: list.splits if_splits)
  next
    case (Dequeue k)
    with m holding_update [of k "workers s" "Executing (hd (buffer (jobs s)))"]
    show ?thesis
      by (auto simp: hosts_of_def split: list.splits if_splits)
  next
    case (Return k)
    with m holding_update [of k "workers s" Returned]
    show ?thesis
      by (auto simp: hosts_of_def split: list.splits if_splits)
  next
    case (Respond k data)
    with m holding_update [of k "workers s" Dequeuing]
    show ?thesis
      by (auto simp: hosts_of_def split: list.splits if_splits worker.splits)
  next
    case Collect
    with m show ?thesis
      by (auto simp: hosts_of_def split: list.splits if_splits)
  next
    case Finish
    with m show ?thesis
      by (auto simp: hosts_of_def split: list.splits if_splits)
  qed
qed

lemma step_count:
  assumes "step Config a s = Some s'" and "loop_i s \<le> length (ServerList Config)"
  shows "loop_i s' \<le> length (ServerList Config)
         \<and> length (results s') + loop_i s = length (results s) + loop_i s'"
proof -
  from assms have m: "move Config a s = Some s'"
    by (simp add: step_Some)
  with assms(2) show ?thesis
    by (cases a) (auto split: list.splits if_splits worker.splits)
qed

lemma run_count:
  "run Config schedule s = Some s' \<Longrightarrow> loop_i s \<le> length (ServerList Config) \<Longrightarrow>
   loop_i s' \<le> length (ServerList Config)
   \<and> length (results s') + loop_i s = length (results s) + loop_i s'"
proof (induction schedule arbitrary: s)
  case Nil
  then show ?case by simp
next
  case (Cons a schedule)
  from Cons.prems(1) obtain s1 where a: "step Config a s = Some s1"
    and r: "run Config schedule s1 = Some s'"
    by (auto split: option.splits)
  from step_count [OF a Cons.prems(2)] Cons.IH [OF r] show ?case by simp
qed

lemma Returned_update:
  "Returned \<in> set (ws[k := w]) \<Longrightarrow> w \<noteq> Returned \<Longrightarrow> Returned \<in> set ws"
  using set_update_subset_insert [of ws k w] by auto

lemma step_pool_inv:
  assumes "pool_inv Config s" and "step Config a s = Some s'"
  shows "pool_inv Config s'"
proof -
  from assms(2) have m: "move Config a s = Some s'"
    by (simp add: step_Some)
  have h: "hosts_of s' = mset (ServerList Config)"
    using assms step_hosts_of [of Config a s s'] by (simp add: pool_inv_def)
  have r: "(closed (jobs s') \<longrightarrow> unsent s' = [])
     \<and> (Returned \<in> set (workers s') \<longrightarrow> closed (jobs s') \<and> buffer (jobs s') = [])
     \<and> 0 < capacity (jobs s') \<and> 0 < capacity (responses s')
     \<and> length (buffer (jobs s')) \<le> capacity (jobs s')
     \<and> length (buffer (responses s')) \<le> capacity (responses s')
     \<and> int (length (workers s')) = execute_threads Config
     \<and> loop_i s' = length (results s')
     \<and> (finished s' \<longrightarrow> length (ServerList Config) \<le> loop_i s')"
  proof (cases a)
    case Send
    with assms(1) m show ?thesis
      by (auto simp: pool_inv_def split: list.splits if_splits)
  next
    case Close
    with assms(1) m show ?thesis
      by (auto simp: pool_inv_def split: list.splits if_splits)
  next
    case (Dequeue k)
    with assms(1) m show ?thesis
      by (auto simp: pool_inv_def split: list.splits if_splits dest: Returned_update)
  next
    case (Return k)
    with assms(1) m show ?thesis
      by (auto simp: pool_inv_def split: list.splits if_splits)
  next
    case (Respond k data)
    with assms(1) m show ?thesis
      by (auto simp: pool_inv_def split: list.splits if_splits worker.splits
               dest: Returned_update)
  next
    case Collect
    with assms(1) m show ?thesis
      by (auto simp: pool_inv_def split: list.splits if_splits)
  next
    case Finish
    with assms(1) m show ?thesis
      by (auto simp: pool_inv_def split: list.splits if_splits)
  qed
  from h r show ?thesis unfolding pool_inv_def by blast
qed

lemma run_pool_inv:
  "pool_inv Config s \<Longrightarrow> run Config schedule s = Some s' \<Longrightarrow> pool_inv Config s'"
proof (induction schedule arbitrary: s)
  case Nil
  then show ?case by simp
next
  case (Cons a schedule)
  then show ?case by (auto split: option.splits dest: step_pool_inv)
qed

lemma run_steps_left:
  "run Config schedule s = Some s' \<Longrightarrow> steps_left s = length schedule + steps_left s'"
proof (induction schedule arbitrary: s)
  case Nil
  then show ?case by simp
next
  case (Cons a schedule)
  then show ?case by (auto split: option.splits dest: step_steps_left)
qed

lemma start_pool_inv:
  assumes "ComChannel Config = \<lparr>JobChannel = make_chan cj, ResponseChannel = make_chan cr\<rparr>"
    and "0 < cj" and "0 < cr" and "start Config = Some s"
  shows "pool_inv Config s" and "\<not> closed (jobs s)"
    and "steps_left s = 4 * length (ServerList Config) + nat (execute_threads Config) + 2"
proof -
  from assms(4) have t: "0 \<le> execute_threads Config"
    and s: "s = \<lparr>jobs = JobChannel (ComChannel Config),
                 responses = ResponseChannel (ComChannel Config),
                 unsent = ServerList Config,
                 workers = replicate (nat (execute_threads Config)) Dequeuing,
                 results = [], loop_i = 0, finished = False\<rparr>"
    by (auto simp: start_def Let_def split: if_splits)
  have w: "holding (replicate n Dequeuing) = []" for n
    by (induction n) simp_all
  from t s assms(1-3) show "pool_inv Config s"
    by (simp add: pool_inv_def hosts_of_def make_chan_def w)
  from s assms(1) show "\<not> closed (jobs s)" by (simp add: make_chan_def)
  from s assms(1) show
    "steps_left s = 4 * length (ServerList Config) + nat (execute_threads Config) + 2"
    by (simp add: steps_left_def make_chan_def sum_list_replicate)
qed

lemma pool_inv_results:
  assumes "pool_inv Config s"
  shows "length (results s) \<le> length (ServerList Config)"
    and "length (results s) = length (ServerList Config) \<Longrightarrow>
         mset (map Host (results s)) = mset (ServerList Config)"
proof -
  let ?others = "mset (unsent s) + mset (buffer (jobs s)) + mset (holding (workers s))
     + mset (map Host (buffer (responses s)))"
  from assms have e: "?others + mset (map Host (results s)) = mset (ServerList Config)"
    by (simp add: pool_inv_def hosts_of_def)
  from e have "size ?others + length (results s) = length (ServerList Config)"
    by (metis size_union size_mset length_map)
  then show "length (results s) \<le> length (ServerList Config)"
    and "length (results s) = length (ServerList Config) \<Longrightarrow>
         mset (map Host (results s)) = mset (ServerList Config)"
    using e by (auto simp del: size_union)
qed

lemma pool_finish:
  assumes i: "pool_inv Config s" and f: "\<not> finished s"
  shows "step Config Finish s
         = (if length (results s) = length (ServerList Config)
            then Some (s\<lparr>finished := True\<rparr>) else None)"
    and "length (results s) = length (ServerList Config) \<Longrightarrow> step Config Collect s = None"
  using i f pool_inv_results(1) [OF i] by (auto simp: step_def pool_inv_def)

lemma pool_progress:
  assumes i: "pool_inv Config s" and w: "workers s \<noteq> []" and f: "\<not> finished s"
  shows "\<exists>a s'. step Config a s = Some s' \<and> closed (jobs s') = closed (jobs s)"
proof (cases "length (results s) < length (ServerList Config)")
  case False
  with pool_inv_results(1) [OF i] pool_finish(1) [OF i f]
  have "step Config Finish s = Some (s\<lparr>finished := True\<rparr>)
        \<and> closed (jobs (s\<lparr>finished := True\<rparr>)) = closed (jobs s)"
    by simp
  then show ?thesis by blast
next
  case n: True
  from i have l: "loop_i s = length (results s)" by (simp add: pool_inv_def)
  consider (resp) "buffer (responses s) \<noteq> []"
    | (exec) "buffer (responses s) = []" "holding (workers s) \<noteq> []"
    | (job) "buffer (responses s) = []" "holding (workers s) = []" "buffer (jobs s) \<noteq> []"
    | (send) "buffer (responses s) = []" "holding (workers s) = []" "buffer (jobs s) = []"
        "unsent s \<noteq> []"
    | (none) "buffer (responses s) = []" "holding (workers s) = []" "buffer (jobs s) = []"
        "unsent s = []"
    by blast
  then show ?thesis
  proof cases
    case resp
    then obtain result rest where "buffer (responses s) = result # rest"
      by (cases "buffer (responses s)") auto
    with n l f have "step Config Collect s
        = Some (s\<lparr>responses := (responses s)\<lparr>buffer := rest\<rparr>,
                  results := results s @ [result], loop_i := Suc (loop_i s)\<rparr>)"
      by (simp add: step_def)
    then have "\<exists>s'. step Config Collect s = Some s' \<and> closed (jobs s') = closed (jobs s)"
      by simp
    then show ?thesis by blast
  next
    case exec
    then obtain host where "Executing host \<in> set (workers s)"
      by (auto simp: holding_Nil)
    then obtain k where "k < length (workers s)" "workers s ! k = Executing host"
      by (auto simp: in_set_conv_nth)
    with exec(1) i f have "step Config (Respond k []) s
        = Some (s\<lparr>responses := (responses s)
                     \<lparr>buffer := buffer (responses s) @ [\<lparr>Host = host, ResponseData = []\<rparr>]\<rparr>,
                  workers := (workers s)[k := Dequeuing]\<rparr>)"
      by (auto simp: pool_inv_def step_def)
    then have "\<exists>s'. step Config (Respond k []) s = Some s'
                 \<and> closed (jobs s') = closed (jobs s)"
      by simp
    then show ?thesis by blast
  next
    case job
    with i have "Returned \<notin> set (workers s)" by (auto simp: pool_inv_def)
    moreover from job have "\<forall>host. Executing host \<notin> set (workers s)"
      by (simp add: holding_Nil)
    moreover from w have "workers s ! 0 \<in> set (workers s)" by simp
    ultimately have d: "workers s ! 0 = Dequeuing"
      by (cases "workers s ! 0") auto
    from job obtain host hosts where "buffer (jobs s) = host # hosts"
      by (cases "buffer (jobs s)") auto
    with w d f have "step Config (Dequeue 0) s
        = Some (s\<lparr>jobs := (jobs s)\<lparr>buffer := hosts\<rparr>,
                  workers := (workers s)[0 := Executing host]\<rparr>)"
      by (simp add: step_def)
    then have "\<exists>s'. step Config (Dequeue 0) s = Some s'
                 \<and> closed (jobs s') = closed (jobs s)"
      by simp
    then show ?thesis by blast
  next
    case send
    then obtain host hosts where u: "unsent s = host # hosts"
      by (cases "unsent s") auto
    with send i f have "step Config Send s
        = Some (s\<lparr>jobs := (jobs s)\<lparr>buffer := buffer (jobs s) @ [host]\<rparr>, unsent := hosts\<rparr>)"
      by (simp add: pool_inv_def step_def)
    then have "\<exists>s'. step Config Send s = Some s' \<and> closed (jobs s') = closed (jobs s)"
      by simp
    then show ?thesis by blast
  next
    case none
    with i have "mset (map Host (results s)) = mset (ServerList Config)"
      by (simp add: pool_inv_def hosts_of_def)
    then have "length (results s) = length (ServerList Config)"
      by (metis size_mset length_map)
    with n show ?thesis by simp
  qed
qed

lemma pool_completes:
  "pool_inv Config s \<Longrightarrow> workers s \<noteq> [] \<Longrightarrow>
   \<exists>schedule s'. run Config schedule s = Some s' \<and> finished s'
      \<and> closed (jobs s') = closed (jobs s)"
proof (induction "steps_left s" arbitrary: s rule: less_induct)
  case less
  show ?case
  proof (cases "finished s")
    case True
    then have "run Config [] s = Some s \<and> finished s \<and> closed (jobs s) = closed (jobs s)"
      by simp
    then show ?thesis by blast
  next
    case False
    from pool_progress [OF less.prems False] obtain a s1
      where a: "step Config a s = Some s1" and c: "closed (jobs s1) = closed (jobs s)"
      by blast
    have "length (workers s1) = length (workers s)"
      using step_pool_inv [OF less.prems(1) a] less.prems(1)
      by (simp add: pool_inv_def)
    with less.prems(2) have "workers s1 \<noteq> []" by auto
    with less.hyps [of s1] step_steps_left [OF a] step_pool_inv [OF less.prems(1) a]
    obtain schedule s' where "run Config schedule s1 = Some s'" "finished s'"
      "closed (jobs s') = closed (jobs s1)"
      by auto
    with a c have "run Config (a # schedule) s = Some s' \<and> finished s'
                 \<and> closed (jobs s') = closed (jobs s)"
      by simp
    then show ?thesis by blast
  qed
qed

lemma step_no_workers:
  assumes "workers s = [] \<and> buffer (responses s) = [] \<and> results s = []
           \<and> loop_i s = 0 \<and> \<not> finished s"
    and "ServerList Config \<noteq> []"
    and "step Config a s = Some s'"
  shows "workers s' = [] \<and> buffer (responses s') = [] \<and> results s' = []
         \<and> loop_i s' = 0 \<and> \<not> finished s'"
proof -
  from assms(3) have "move Config a s = Some s'"
    by (simp add: step_Some)
  with assms(1,2) show ?thesis
    by (cases a) (auto split: list.splits if_splits)
qed

lemma run_no_workers:
  "workers s = [] \<and> buffer (responses s) = [] \<and> results s = []
     \<and> loop_i s = 0 \<and> \<not> finished s \<Longrightarrow>
   ServerList Config \<noteq> [] \<Longrightarrow>
   run Config schedule s = Some s' \<Longrightarrow> results s' = [] \<and> \<not> finished s'"
proof (induction schedule arbitrary: s)
  case Nil
  then show ?case by simp
next
  case (Cons a schedule)
  from Cons.prems(3) obtain s1 where a: "step Config a s = Some s1"
    and r: "run Config schedule s1 = Some s'"
    by (auto split: option.splits)
  from Cons.IH [OF step_no_workers [OF Cons.prems(1,2) a] Cons.prems(2) r] show ?case .
qed

lemma example_execute:
  "execute (example_Config\<lparr>NumProcs := 4\<rparr>) example_schedule
   = Some \<lparr>jobs = \<lparr>capacity = 100, buffer = [], closed = False\<rparr>,
           responses = \<lparr>capacity = 100, buffer = [], closed = False\<rparr>,
           unsent = [], workers = [Dequeuing, Dequeuing],
           results = [\<lparr>Host = ''h2'', ResponseData = ''up 3 days''\<rparr>,
                      \<lparr>Host = ''h1'', ResponseData = ''up 5 days''\<rparr>],
           loop_i = 2, finished = True\<rparr>"
  by (simp add: execute_def start_def step_def execute_threads_def example_Config_def
        example_schedule_def make_chan_def numeral_2_eq_2 Let_def)

lemma example_pool_Collect:
  "step (example_Config\<lparr>NumProcs := 4\<rparr>) Collect example_pool = None"
  "run (example_Config\<lparr>NumProcs := 4\<rparr>) [Finish] example_pool
   = Some (example_pool\<lparr>finished := True\<rparr>)"
  by (simp_all add: step_def example_Config_def example_pool_def)

text \<open>
  C6, as amended. For the configuration of a run of \<^verbatim>\<open>load\<close> and every schedule of the
  goroutines of \<^verbatim>\<open>execute\<close>: every host of the list is at every moment in exactly
  one place (not sent yet, queued, held by one worker, answered and queued, or
  collected), so a worker produces one response for a host it has dequeued. The loop
  variable of the collector is the number of responses it has received, which is at
  most the number of hosts. When \<^verbatim>\<open>execute\<close> has left the loop, the collector has
  received exactly as many responses as there are hosts, and the hosts of the
  collected responses are the hosts of the list as multisets. While it has not
  left the loop, it can leave exactly when it has received that many, whatever the
  workers and the producer have done, and then it cannot receive. A schedule has a
  bounded number of steps. When the number of workers asked for is at least one, some
  goroutine can take a step as long as \<^verbatim>\<open>execute\<close> has not left the loop, and a
  schedule exists after which it has left the loop and no worker has returned.
  From any pool in which the loop variable is at most the number of hosts, whatever
  else it holds, a schedule keeps the loop variable at most the number of hosts and
  the collector receives once for every increment of it.
\<close>

theorem collector_receives_every_host:
  assumes "fst (load nse w f t) = Inr Config"
  shows
    "(execute Config schedule = Some s \<longrightarrow>
        hosts_of s = mset (ServerList Config)
        \<and> loop_i s = length (results s)
        \<and> length (results s) \<le> length (ServerList Config)
        \<and> (finished s \<longrightarrow>
             length (results s) = length (ServerList Config)
             \<and> mset (map Host (results s)) = mset (ServerList Config))
        \<and> (\<not> finished s \<longrightarrow>
             step Config Finish s
               = (if length (results s) = length (ServerList Config)
                  then Some (s\<lparr>finished := True\<rparr>) else None)
             \<and> (length (results s) = length (ServerList Config) \<longrightarrow>
                  step Config Collect s = None))
        \<and> length schedule \<le> 4 * length (ServerList Config) + nat (execute_threads Config) + 2
        \<and> (0 < NumProcs Config \<and> \<not> finished s \<longrightarrow> (\<exists>a s'. step Config a s = Some s')))
     \<and> (0 < NumProcs Config \<longrightarrow>
          (\<exists>schedule s. execute Config schedule = Some s \<and> finished s
             \<and> Returned \<notin> set (workers s)))
     \<and> (run Config steps s0 = Some s1 \<and> loop_i s0 \<le> length (ServerList Config) \<longrightarrow>
          loop_i s1 \<le> length (ServerList Config)
          \<and> length (results s1) + loop_i s0 = length (results s0) + loop_i s1)"
proof -
  from load_Inr [OF assms]
  have c: "ComChannel Config = \<lparr>JobChannel = make_chan 100, ResponseChannel = make_chan 100\<rparr>"
    and l: "ServerList Config \<noteq> []"
    by (simp_all add: NewServerList_def Split_not_Nil)
  have threads: "0 < NumProcs Config \<Longrightarrow> 0 < execute_threads Config"
    using l by (simp add: execute_threads_def)
  have 1: "hosts_of s = mset (ServerList Config)
        \<and> loop_i s = length (results s)
        \<and> length (results s) \<le> length (ServerList Config)
        \<and> (finished s \<longrightarrow>
             length (results s) = length (ServerList Config)
             \<and> mset (map Host (results s)) = mset (ServerList Config))
        \<and> (\<not> finished s \<longrightarrow>
             step Config Finish s
               = (if length (results s) = length (ServerList Config)
                  then Some (s\<lparr>finished := True\<rparr>) else None)
             \<and> (length (results s) = length (ServerList Config) \<longrightarrow>
                  step Config Collect s = None))
        \<and> length schedule \<le> 4 * length (ServerList Config) + nat (execute_threads Config) + 2
        \<and> (0 < NumProcs Config \<and> \<not> finished s \<longrightarrow> (\<exists>a s'. step Config a s = Some s'))"
    if e: "execute Config schedule = Some s"
  proof -
    from e obtain s0 where s0: "start Config = Some s0"
      and r: "run Config schedule s0 = Some s"
      by (auto simp: execute_def split: option.splits)
    note i0 = start_pool_inv [OF c _ _ s0, simplified]
    from run_pool_inv [OF i0(1) r] have i: "pool_inv Config s" .
    from i have a: "hosts_of s = mset (ServerList Config)"
      and a': "loop_i s = length (results s)"
      by (simp_all add: pool_inv_def)
    note b = pool_inv_results(1) [OF i]
    have d: "finished s \<longrightarrow>
             length (results s) = length (ServerList Config)
             \<and> mset (map Host (results s)) = mset (ServerList Config)"
    proof
      assume "finished s"
      with i b have "length (results s) = length (ServerList Config)"
        by (simp add: pool_inv_def)
      with pool_inv_results(2) [OF i]
      show "length (results s) = length (ServerList Config)
             \<and> mset (map Host (results s)) = mset (ServerList Config)"
        by simp
    qed
    have d': "\<not> finished s \<longrightarrow>
             step Config Finish s
               = (if length (results s) = length (ServerList Config)
                  then Some (s\<lparr>finished := True\<rparr>) else None)
             \<and> (length (results s) = length (ServerList Config) \<longrightarrow>
                  step Config Collect s = None)"
      using pool_finish [OF i] by blast
    from run_steps_left [OF r] i0(3)
    have g: "length schedule \<le> 4 * length (ServerList Config) + nat (execute_threads Config) + 2"
      by simp
    have h: "0 < NumProcs Config \<and> \<not> finished s \<longrightarrow> (\<exists>a s'. step Config a s = Some s')"
    proof
      assume p: "0 < NumProcs Config \<and> \<not> finished s"
      with threads i have "workers s \<noteq> []" by (auto simp: pool_inv_def)
      with pool_progress [OF i] p show "\<exists>a s'. step Config a s = Some s'" by blast
    qed
    from a a' b d d' g h show ?thesis by (intro conjI)
  qed
  have 2: "\<exists>schedule s. execute Config schedule = Some s \<and> finished s
             \<and> Returned \<notin> set (workers s)"
    if p: "0 < NumProcs Config"
  proof -
    from threads [OF p] obtain s0 where s0: "start Config = Some s0"
      by (auto simp: start_def Let_def)
    note i0 = start_pool_inv [OF c _ _ s0, simplified]
    from threads [OF p] i0(1) have "workers s0 \<noteq> []" by (auto simp: pool_inv_def)
    from pool_completes [OF i0(1) this] obtain schedule s
      where r: "run Config schedule s0 = Some s" and fin: "finished s"
        and cl: "closed (jobs s) = closed (jobs s0)"
      by blast
    from run_pool_inv [OF i0(1) r] cl i0(2) have "Returned \<notin> set (workers s)"
      by (auto simp: pool_inv_def)
    with r fin s0 have "execute Config schedule = Some s \<and> finished s
             \<and> Returned \<notin> set (workers s)"
      by (simp add: execute_def)
    then show ?thesis by blast
  qed
  have 3: "loop_i s1 \<le> length (ServerList Config)
          \<and> length (results s1) + loop_i s0 = length (results s0) + loop_i s1"
    if "run Config steps s0 = Some s1 \<and> loop_i s0 \<le> length (ServerList Config)"
    using that run_count [of Config steps s0 s1] by blast
  from 1 2 3 show ?thesis by blast
qed

theorem collector_receives_every_host_witness:
  "fst (load example_NewScriptExecutor example_world example_load_flags example_terminal)
     = Inr example_Config
   \<and> execute example_Config example_schedule
       = Some \<lparr>jobs = \<lparr>capacity = 100, buffer = [], closed = False\<rparr>,
               responses = \<lparr>capacity = 100, buffer = [], closed = False\<rparr>,
               unsent = [], workers = [Dequeuing, Dequeuing],
               results = [\<lparr>Host = ''h2'', ResponseData = ''up 3 days''\<rparr>,
                          \<lparr>Host = ''h1'', ResponseData = ''up 5 days''\<rparr>],
               loop_i = 2, finished = True\<rparr>
   \<and> mset [''h2'', ''h1''] = mset (ServerList example_Config)
   \<and> length example_schedule \<le> 14
   \<and> 0 < NumProcs example_Config
   \<and> step example_Config Collect example_pool = None
   \<and> run example_Config [Finish] example_pool = Some (example_pool\<lparr>finished := True\<rparr>)
   \<and> loop_i example_pool \<le> length (ServerList example_Config)
   \<and> length (results (example_pool\<lparr>finished := True\<rparr>)) + loop_i example_pool
       = length (results example_pool) + loop_i (example_pool\<lparr>finished := True\<rparr>)"
proof -
  have p: "example_load_flags\<lparr>flagProcs := 4\<rparr> = example_load_flags"
    "example_Config\<lparr>NumProcs := 4\<rparr> = example_Config"
    by (simp_all add: example_load_flags_def example_Config_def)
  from example_load [of 4] have l:
    "fst (load example_NewScriptExecutor example_world example_load_flags example_terminal)
       = Inr example_Config"
    by (simp only: p)
  let ?r = "\<lparr>jobs = \<lparr>capacity = 100, buffer = [], closed = False\<rparr>,
             responses = \<lparr>capacity = 100, buffer = [], closed = False\<rparr>,
             unsent = [], workers = [Dequeuing, Dequeuing],
             results = [\<lparr>Host = ''h2'', ResponseData = ''up 3 days''\<rparr>,
                        \<lparr>Host = ''h1'', ResponseData = ''up 5 days''\<rparr>],
             loop_i = 2, finished = True\<rparr>"
  from example_execute have e: "execute example_Config example_schedule = Some ?r"
    by (simp only: p)
  from example_pool_Collect have c:
    "step example_Config Collect example_pool = None"
    "run example_Config [Finish] example_pool = Some (example_pool\<lparr>finished := True\<rparr>)"
    by (simp_all only: p)
  have n: "0 < NumProcs example_Config"
    "loop_i example_pool \<le> length (ServerList example_Config)"
    by (simp_all add: example_Config_def example_pool_def)
  note t = collector_receives_every_host [OF l, where schedule = example_schedule
      and s = ?r and steps = "[Finish]" and ?s0.0 = example_pool
      and ?s1.0 = "example_pool\<lparr>finished := True\<rparr>"]
  from t e have 1: "mset [''h2'', ''h1''] = mset (ServerList example_Config)"
    by simp
  from t e have 2: "length example_schedule \<le> 14"
    by (simp add: execute_threads_def example_Config_def)
  from t c(2) n(2) have 3:
    "length (results (example_pool\<lparr>finished := True\<rparr>)) + loop_i example_pool
       = length (results example_pool) + loop_i (example_pool\<lparr>finished := True\<rparr>)"
    by blast
  from l e 1 2 n c 3 show ?thesis by (intro conjI)
qed

text \<open>
  C6 as stated fails when no worker is asked for (\<^verbatim>\<open>--procs 0\<close>): \<^verbatim>\<open>execute\<close> starts
  no worker, the producer fills the job channel and closes it, and the collector never
  receives a response and never leaves its loop, whatever the schedule; no worker
  has terminated abnormally.
\<close>

theorem no_worker_counterexample:
  "fst (load example_NewScriptExecutor example_world
          (example_load_flags\<lparr>flagProcs := 0\<rparr>) example_terminal)
     = Inr (example_Config\<lparr>NumProcs := 0\<rparr>)
   \<and> map_option workers (start (example_Config\<lparr>NumProcs := 0\<rparr>)) = Some []
   \<and> \<not> (\<exists>schedule s. execute (example_Config\<lparr>NumProcs := 0\<rparr>) schedule = Some s
            \<and> (finished s \<or> results s \<noteq> []))"
proof -
  let ?C = "example_Config\<lparr>NumProcs := 0\<rparr>"
  let ?s = "\<lparr>jobs = make_chan 100, responses = make_chan 100,
             unsent = [''h1'', ''h2''], workers = [], results = [],
             loop_i = 0, finished = False\<rparr>"
  have s: "start ?C = Some ?s"
    by (simp add: start_def execute_threads_def example_Config_def Let_def)
  have "results s' = [] \<and> \<not> finished s'"
    if e: "execute ?C schedule = Some s'" for schedule s'
  proof -
    from e s have r: "run ?C schedule ?s = Some s'"
      by (simp add: execute_def)
    show ?thesis
      by (rule run_no_workers [OF _ _ r]) (simp_all add: make_chan_def example_Config_def)
  qed
  then have "\<not> (\<exists>schedule s. execute ?C schedule = Some s
                  \<and> (finished s \<or> results s \<noteq> []))"
    by blast
  with example_load [of 0] s show ?thesis by simp
qed

end
